theory Spec2Isabelle
  imports Main
begin

section \<open>JavaScript values\<close>

text \<open>
  The values that flow through the query compiler of \<^verbatim>\<open>src/medoo.js\<close>. Numbers are the
  integer-valued ones (of magnitude below \<open>10^21\<close>, which JavaScript prints in plain decimal
  notation); strings are lists of ASCII characters; an object is the list of its own
  properties in the order \<^verbatim>\<open>Object.entries\<close> enumerates them, with unique keys; an array
  carries its elements only (no holes, no named properties); \<open>VRaw\<close> is an instance of the
  class \<^verbatim>\<open>Raw\<close> with its \<^verbatim>\<open>value\<close> (a string) and its \<^verbatim>\<open>map\<close> (an object).
\<close>

datatype jsval =
    VUndefined
  | VNull
  | VBool bool
  | VNum int
  | VStr string
  | VArr "jsval list"
  | VObj "(string \<times> jsval) list"
  | VRaw string "(string \<times> jsval) list"

type_synonym obj = "(string \<times> jsval) list"

text \<open>
  Every \<^verbatim>\<open>throw new Error(...)\<close> of the source is a constructor named after its message;
  \<open>TypeError\<close> is what the runtime raises when a property of \<^verbatim>\<open>null\<close> or
  \<^verbatim>\<open>undefined\<close> is read or when a value that is not a function is called, and
  \<open>RangeError\<close> what it raises when the \<^verbatim>\<open>length\<close> of an array is set to a value that is
  not an array length.
\<close>

datatype error =
    IncorrectTableName string
  | IncorrectColumnName string
  | CannotUseTableStar
  | TypeError
  | RangeError

subsection \<open>Strings\<close>

definition dq :: string where
  "dq = [CHR 0x22]"

definition is_digit :: "char \<Rightarrow> bool" where
  "is_digit c = (c \<in> set ''0123456789'')"

text \<open>The character class \<^verbatim>\<open>[a-zA-Z0-9_]\<close>.\<close>

definition is_word :: "char \<Rightarrow> bool" where
  "is_word c = (c \<in> set ''abcdefghijklmnopqrstuvwxyzABCDEFGHIJKLMNOPQRSTUVWXYZ0123456789_'')"

text \<open>\<^verbatim>\<open>\s\<close> on ASCII: space, tab, line feed, vertical tab, form feed, carriage return.\<close>

definition is_space :: "char \<Rightarrow> bool" where
  "is_space c = (c \<in> set [CHR '' '', CHR 0x09, CHR 0x0A, CHR 0x0B, CHR 0x0C, CHR 0x0D])"

text \<open>The line terminators, which \<^verbatim>\<open>.\<close> does not match.\<close>

definition is_newline :: "char \<Rightarrow> bool" where
  "is_newline c = (c \<in> set [CHR 0x0A, CHR 0x0D])"

definition upper_char :: "char \<Rightarrow> char" where
  "upper_char c =
     (case map_of (zip ''abcdefghijklmnopqrstuvwxyz'' ''ABCDEFGHIJKLMNOPQRSTUVWXYZ'') c of
        Some u \<Rightarrow> u | None \<Rightarrow> c)"

text \<open>Equality of two strings under the flag \<^verbatim>\<open>i\<close>.\<close>

definition eq_nocase :: "string \<Rightarrow> string \<Rightarrow> bool" where
  "eq_nocase a b = (map upper_char a = map upper_char b)"

fun join :: "string \<Rightarrow> string list \<Rightarrow> string" where
  "join sep [] = []"
| "join sep [x] = x"
| "join sep (x # y # ys) = x @ sep @ join sep (y # ys)"

text \<open>\<^verbatim>\<open>s.startsWith(p)\<close>, and what follows the prefix.\<close>

fun strip_prefix :: "string \<Rightarrow> string \<Rightarrow> string option" where
  "strip_prefix [] s = Some s"
| "strip_prefix (p # ps) [] = None"
| "strip_prefix (p # ps) (c # cs) = (if p = c then strip_prefix ps cs else None)"

text \<open>\<^verbatim>\<open>s.replace(p, r)\<close> with a string pattern: the first occurrence only.\<close>

fun replace_first :: "string \<Rightarrow> string \<Rightarrow> string \<Rightarrow> string" where
  "replace_first p r [] = (if p = [] then r else [])"
| "replace_first p r (c # cs) =
     (case strip_prefix p (c # cs) of
        Some rest \<Rightarrow> r @ rest
      | None \<Rightarrow> c # replace_first p r cs)"

text \<open>
  Decimal notation of a number, as a template literal prints it. JavaScript prints an
  integer-valued number in plain decimal notation when its magnitude is below \<open>10^21\<close>,
  and in exponent notation from there on; \<open>int_str\<close> is the plain notation, and
  \<open>plain_decimal\<close> holds of the numbers that JavaScript prints so.
\<close>

definition plain_decimal :: "int \<Rightarrow> bool" where
  "plain_decimal i = (\<bar>i\<bar> < 10 ^ 21)"

definition digit_char :: "nat \<Rightarrow> char" where
  "digit_char d = ''0123456789'' ! d"

fun nat_str :: "nat \<Rightarrow> string" where
  "nat_str n = (if n < 10 then [digit_char n] else nat_str (n div 10) @ [digit_char (n mod 10)])"

declare nat_str.simps [simp del]

definition int_str :: "int \<Rightarrow> string" where
  "int_str i = (if i < 0 then CHR ''-'' # nat_str (nat (- i)) else nat_str (nat i))"

text \<open>
  A regular expression without \<^verbatim>\<open>^\<close> is tried at every position from the left; the
  first position where it matches wins.
\<close>

fun search :: "(string \<Rightarrow> 'a option) \<Rightarrow> string \<Rightarrow> 'a option" where
  "search m [] = m []"
| "search m (c # cs) = (case m (c # cs) of Some r \<Rightarrow> Some r | None \<Rightarrow> search m cs)"

subsection \<open>Coercions and objects\<close>

definition typeof :: "jsval \<Rightarrow> string" where
  "typeof v =
     (case v of
        VUndefined \<Rightarrow> ''undefined''
      | VBool _ \<Rightarrow> ''boolean''
      | VNum _ \<Rightarrow> ''number''
      | VStr _ \<Rightarrow> ''string''
      | _ \<Rightarrow> ''object'')"

definition isArray :: "jsval \<Rightarrow> bool" where
  "isArray v = (case v of VArr _ \<Rightarrow> True | _ \<Rightarrow> False)"

definition isRaw :: "jsval \<Rightarrow> bool" where
  "isRaw v = (case v of VRaw _ _ \<Rightarrow> True | _ \<Rightarrow> False)"

text \<open>What \<^verbatim>\<open>if (v)\<close> tests.\<close>

definition truthy :: "jsval \<Rightarrow> bool" where
  "truthy v =
     (case v of
        VUndefined \<Rightarrow> False
      | VNull \<Rightarrow> False
      | VBool b \<Rightarrow> b
      | VNum n \<Rightarrow> n \<noteq> 0
      | VStr s \<Rightarrow> s \<noteq> []
      | _ \<Rightarrow> True)"

text \<open>\<^verbatim>\<open>String(v)\<close>, which is also what a template literal and a regular expression apply.\<close>

fun js_string :: "jsval \<Rightarrow> string" where
  "js_string VUndefined = ''undefined''"
| "js_string VNull = ''null''"
| "js_string (VBool b) = (if b then ''true'' else ''false'')"
| "js_string (VNum n) = int_str n"
| "js_string (VStr s) = s"
| "js_string (VArr xs) =
     join '','' (map (\<lambda>x. if x = VNull \<or> x = VUndefined then [] else js_string x) xs)"
| "js_string (VObj kvs) = ''[object Object]''"
| "js_string (VRaw s m) = ''[object Object]''"

fun index_from :: "nat \<Rightarrow> 'a list \<Rightarrow> (string \<times> 'a) list" where
  "index_from i [] = []"
| "index_from i (x # xs) = (nat_str i, x) # index_from (Suc i) xs"

text \<open>
  \<^verbatim>\<open>Object.entries(v)\<close>: \<open>None\<close> is the TypeError on \<^verbatim>\<open>null\<close> and \<^verbatim>\<open>undefined\<close>.
  An array and a string enumerate their indices, a number and a boolean have no own
  property, a \<^verbatim>\<open>Raw\<close> has its two fields.
\<close>

definition entries :: "jsval \<Rightarrow> obj option" where
  "entries v =
     (case v of
        VUndefined \<Rightarrow> None
      | VNull \<Rightarrow> None
      | VBool _ \<Rightarrow> Some []
      | VNum _ \<Rightarrow> Some []
      | VStr s \<Rightarrow> Some (index_from 0 (map (\<lambda>c. VStr [c]) s))
      | VArr xs \<Rightarrow> Some (index_from 0 xs)
      | VObj kvs \<Rightarrow> Some kvs
      | VRaw s m \<Rightarrow> Some [(''value'', VStr s), (''map'', VObj m)])"

text \<open>
  A canonical array index (\<^verbatim>\<open>"0"\<close>, \<^verbatim>\<open>"17"\<close>, below \<open>2^32 - 1\<close>): an object enumerates
  these keys first, in ascending order, and the others after them in insertion order.
\<close>

definition str_num :: "string \<Rightarrow> int" where
  "str_num s = foldl (\<lambda>n c. 10 * n + (of_char c - of_char CHR ''0'')) 0 s"

definition is_index :: "string \<Rightarrow> bool" where
  "is_index k = (k \<noteq> [] \<and> list_all is_digit k \<and> (k = ''0'' \<or> hd k \<noteq> CHR ''0'')
                 \<and> str_num k < 4294967295)"

text \<open>\<^verbatim>\<open>o[k]\<close> on an object; a missing property reads \<^verbatim>\<open>undefined\<close>.\<close>

definition obj_get :: "obj \<Rightarrow> string \<Rightarrow> jsval" where
  "obj_get kvs k = (case map_of kvs k of Some v \<Rightarrow> v | None \<Rightarrow> VUndefined)"

text \<open>\<^verbatim>\<open>o[k] = v\<close>: an existing property keeps its place.\<close>

definition obj_set :: "obj \<Rightarrow> string \<Rightarrow> jsval \<Rightarrow> obj" where
  "obj_set kvs k v =
     (if k \<in> fst ` set kvs then map (\<lambda>(k', v'). if k' = k then (k', v) else (k', v')) kvs
      else if is_index k then
        takeWhile (\<lambda>(k', _). is_index k' \<and> str_num k' < str_num k) kvs
          @ [(k, v)] @ dropWhile (\<lambda>(k', _). is_index k' \<and> str_num k' < str_num k) kvs
      else kvs @ [(k, v)])"

text \<open>\<^verbatim>\<open>delete o[k]\<close>.\<close>

definition obj_delete :: "obj \<Rightarrow> string \<Rightarrow> obj" where
  "obj_delete kvs k = filter (\<lambda>(k', _). k' \<noteq> k) kvs"

text \<open>\<^verbatim>\<open>Object.assign(target, source)\<close>.\<close>

definition obj_assign :: "obj \<Rightarrow> obj \<Rightarrow> obj" where
  "obj_assign target source = foldl (\<lambda>t (k, v). obj_set t k v) target source"

text \<open>\<^verbatim>\<open>v.KEY\<close> for a value that is not \<^verbatim>\<open>null\<close>: only a plain object has named properties
  of its own here.\<close>

definition get_prop :: "jsval \<Rightarrow> string \<Rightarrow> jsval" where
  "get_prop v k = (case v of VObj kvs \<Rightarrow> obj_get kvs k | _ \<Rightarrow> VUndefined)"

section \<open>The instance\<close>

text \<open>
  The fields of a \<^verbatim>\<open>Medoo\<close> instance that the compiler reads: the table prefix, the
  counter \<^verbatim>\<open>guid\<close> behind the parameter names, and \<^verbatim>\<open>connection.escape\<close> of the
  database driver, which is not code of this repository and is a parameter here.
\<close>

record medoo =
  prefix :: string
  guid :: nat
  escape :: "jsval \<Rightarrow> string"

text \<open>\<^verbatim>\<open>mapKey()\<close> returns the next parameter name and advances the counter.\<close>

definition mapKey :: "medoo \<Rightarrow> string \<times> medoo" where
  "mapKey this = ('':medoo_'' @ nat_str (guid this) @ ''_param'', this\<lparr>guid := Suc (guid this)\<rparr>)"

section \<open>Quoting identifiers\<close>

text \<open>\<^verbatim>\<open>/^[a-zA-Z0-9_]+$/i\<close>\<close>

definition table_re :: "string \<Rightarrow> bool" where
  "table_re s = (s \<noteq> [] \<and> list_all is_word s)"

definition tableQuote :: "medoo \<Rightarrow> string \<Rightarrow> error + string" where
  "tableQuote this table =
     (if \<not> table_re table then Inl (IncorrectTableName table)
      else Inr (dq @ prefix this @ table @ dq))"

text \<open>\<^verbatim>\<open>/^[a-zA-Z0-9_]+(\.[a-zA-Z0-9_]+)?$/i\<close>: a run of word characters, then either the
  end or a dot and a second run that reaches the end.\<close>

definition column_re :: "string \<Rightarrow> bool" where
  "column_re s =
     (let a = takeWhile is_word s; r = dropWhile is_word s
      in a \<noteq> [] \<and>
         (case r of
            [] \<Rightarrow> True
          | d # b \<Rightarrow> d = CHR ''.'' \<and> b \<noteq> [] \<and> list_all is_word b))"

definition columnQuote :: "medoo \<Rightarrow> string \<Rightarrow> error + string" where
  "columnQuote this string =
     (if \<not> column_re string then Inl (IncorrectColumnName string)
      else if CHR ''.'' \<in> set string
        then Inr (dq @ prefix this @ replace_first ''.'' (dq @ ''.'' @ dq) string @ dq)
      else Inr (dq @ string @ dq))"

text \<open>
  The same method on a value that need not be a string. The test coerces the value to a
  string; \<^verbatim>\<open>includes\<close> then exists on strings and arrays only (a TypeError elsewhere), an
  array has no \<^verbatim>\<open>replace\<close>, and the template literal coerces again.
\<close>

definition columnQuoteV :: "medoo \<Rightarrow> jsval \<Rightarrow> error + string" where
  "columnQuoteV this v =
     (case v of
        VStr s \<Rightarrow> columnQuote this s
      | VArr xs \<Rightarrow>
          if \<not> column_re (js_string v) then Inl (IncorrectColumnName (js_string v))
          else if VStr ''.'' \<in> set xs then Inl TypeError
          else Inr (dq @ js_string v @ dq)
      | _ \<Rightarrow>
          if \<not> column_re (js_string v) then Inl (IncorrectColumnName (js_string v))
          else Inl TypeError)"

text \<open>\<^verbatim>\<open>typeMap(value, type)\<close>\<close>

definition typeMap :: "jsval \<Rightarrow> string \<Rightarrow> jsval" where
  "typeMap v type =
     (if type = ''boolean'' then (if truthy v then VStr ''1'' else VStr ''0'')
      else if type = ''object'' \<and> v = VNull then VNull
      else v)"

section \<open>Raw fragments\<close>

text \<open>
  \<^verbatim>\<open>buildRaw\<close> rewrites the text of a fragment with the global, case-insensitive pattern
  \<^verbatim>\<open>(([`']).*?)?((FROM|TABLE|INTO|UPDATE|JOIN)\s*)?<(([a-zA-Z0-9_]+)(\.[a-zA-Z0-9_]+)?)>(.*?\2)?\<close>
  (the source escapes the two angle brackets). The functions below match it at the front
  of a string, piece by piece.
\<close>

fun first_some :: "('a \<Rightarrow> 'b option) \<Rightarrow> 'a list \<Rightarrow> 'b option" where
  "first_some f [] = None"
| "first_some f (x # xs) = (case f x of Some r \<Rightarrow> Some r | None \<Rightarrow> first_some f xs)"

text \<open>A keyword at the front, in any case: the text as written and what follows it.\<close>

definition strip_nocase :: "string \<Rightarrow> string \<Rightarrow> (string \<times> string) option" where
  "strip_nocase kw s =
     (if length kw \<le> length s \<and> eq_nocase kw (take (length kw) s)
      then Some (take (length kw) s, drop (length kw) s) else None)"

text \<open>\<^verbatim>\<open><(([a-zA-Z0-9_]+)(\.[a-zA-Z0-9_]+)?)>\<close>: group 5 and what follows the match.\<close>

definition placeholder_at :: "string \<Rightarrow> (string \<times> string) option" where
  "placeholder_at s =
     (case s of
        [] \<Rightarrow> None
      | c # t \<Rightarrow>
          if c \<noteq> CHR ''<'' then None
          else
            let a = takeWhile is_word t; r = dropWhile is_word t
            in if a = [] then None
               else
                 (case r of
                    [] \<Rightarrow> None
                  | d # r' \<Rightarrow>
                      if d = CHR ''.'' then
                        (let b = takeWhile is_word r'; r'' = dropWhile is_word r'
                         in if b \<noteq> [] \<and> r'' \<noteq> [] \<and> hd r'' = CHR ''>''
                            then Some (a @ ''.'' @ b, tl r'') else None)
                      else if d = CHR ''>'' then Some (a, r')
                      else None))"

text \<open>The optional keyword group and the placeholder: group 4, group 5, the rest.\<close>

definition raw_rest_at :: "string \<Rightarrow> (string option \<times> string \<times> string) option" where
  "raw_rest_at s =
     (case
        (case first_some (\<lambda>kw. strip_nocase kw s) [''FROM'', ''TABLE'', ''INTO'', ''UPDATE'', ''JOIN''] of
           None \<Rightarrow> None
         | Some (kw, r) \<Rightarrow>
             (case placeholder_at (dropWhile is_space r) of
                None \<Rightarrow> None
              | Some (p5, w) \<Rightarrow> Some (Some kw, p5, w)))
      of
        Some m \<Rightarrow> Some m
      | None \<Rightarrow>
          (case placeholder_at s of
             None \<Rightarrow> None
           | Some (p5, w) \<Rightarrow> Some (None, p5, w)))"

text \<open>The lazy \<^verbatim>\<open>.*?\<close> after an opening quote: the shortest run of characters other
  than line terminators after which the rest of the pattern matches.\<close>

fun lazy_rest :: "string \<Rightarrow> (string option \<times> string \<times> string) option" where
  "lazy_rest [] = raw_rest_at []"
| "lazy_rest (c # cs) =
     (case raw_rest_at (c # cs) of
        Some m \<Rightarrow> Some m
      | None \<Rightarrow> if is_newline c then None else lazy_rest cs)"

text \<open>Group 8, \<^verbatim>\<open>(.*?\2)?\<close>, when group 2 is the quote \<open>q\<close>: what follows the next \<open>q\<close>
  on the same line.\<close>

fun upto_quote :: "char \<Rightarrow> string \<Rightarrow> string option" where
  "upto_quote q [] = None"
| "upto_quote q (c # cs) =
     (if c = q then Some cs else if is_newline c then None else upto_quote q cs)"

text \<open>
  One match at the front of \<open>s\<close>, with what the callback returns for it and the text after
  the match. A match that opens with a quote is returned as it is. Without a quote groups
  1 and 2 are \<^verbatim>\<open>undefined\<close>, and the callback's \<^verbatim>\<open>p1 + ...\<close> concatenates the string
  \<^verbatim>\<open>"undefined"\<close>. The back reference to the unset group 2 matches the empty string,
  and an optional group is not allowed to match the empty string: so the lazy \<^verbatim>\<open>.*?\<close>
  of group 8 takes one character after the placeholder, when one that is not a line
  terminator follows. The character belongs to the match and the callback does not return
  it, so \<open>after_placeholder\<close> drops it.
\<close>

definition after_placeholder :: "string \<Rightarrow> string" where
  "after_placeholder w = (case w of [] \<Rightarrow> [] | c # w' \<Rightarrow> if is_newline c then w else w')"


definition raw_at :: "medoo \<Rightarrow> string \<Rightarrow> ((error + string) \<times> string) option" where
  "raw_at this s =
     (case
        (case s of
           [] \<Rightarrow> None
         | q # t \<Rightarrow>
             if q = CHR ''`'' \<or> q = CHR 0x27 then
               (case lazy_rest t of
                  None \<Rightarrow> None
                | Some (p4, p5, w) \<Rightarrow>
                    (let rest = (case upto_quote q w of Some r \<Rightarrow> r | None \<Rightarrow> w)
                     in Some (Inr (take (length s - length rest) s), rest)))
             else None)
      of
        Some m \<Rightarrow> Some m
      | None \<Rightarrow>
          (case raw_rest_at s of
             None \<Rightarrow> None
           | Some (p4, p5, w) \<Rightarrow>
               (case p4 of
                  Some kw \<Rightarrow>
                    Some (map_sum id (\<lambda>t. ''undefined'' @ kw @ '' '' @ t) (tableQuote this p5),
                          after_placeholder w)
                | None \<Rightarrow>
                    Some (map_sum id (\<lambda>c. ''undefined'' @ c) (columnQuote this p5),
                          after_placeholder w))))"

lemma placeholder_at_shorter:
  "placeholder_at s = Some (p, w) \<Longrightarrow> length w < length s"
proof -
  assume a: "placeholder_at s = Some (p, w)"
  have dw: "\<And>xs ys d. dropWhile is_word xs = d # ys \<Longrightarrow> length ys < length xs"
  proof -
    fix xs ys :: string and d
    assume "dropWhile is_word xs = d # ys"
    then have "length (d # ys) \<le> length xs"
      using length_dropWhile_le [of is_word xs] by simp
    then show "length ys < length xs" by simp
  qed
  from a show ?thesis
    unfolding placeholder_at_def Let_def
    apply (auto split: list.splits if_splits dest!: dw)
    apply (rule le_less_trans [OF diff_le_self])
    apply (rule le_less_trans [OF length_dropWhile_le])
    apply simp
    done
qed

lemma raw_rest_at_shorter:
  "raw_rest_at s = Some (p4, p5, w) \<Longrightarrow> length w < length s"
proof -
  assume a: "raw_rest_at s = Some (p4, p5, w)"
  have kw: "\<And>k r kws. first_some (\<lambda>kw. strip_nocase kw s) kws = Some (k, r) \<Longrightarrow> length r \<le> length s"
  proof -
    fix k r kws
    show "first_some (\<lambda>kw. strip_nocase kw s) kws = Some (k, r) \<Longrightarrow> length r \<le> length s"
      by (induction kws) (auto simp: strip_nocase_def split: option.splits if_splits)
  qed
  from a consider
      (K) k r where "first_some (\<lambda>kw. strip_nocase kw s) [''FROM'', ''TABLE'', ''INTO'', ''UPDATE'', ''JOIN''] = Some (k, r)"
        "placeholder_at (dropWhile is_space r) = Some (p5, w)"
    | (B) "placeholder_at s = Some (p5, w)"
    unfolding raw_rest_at_def
    by (auto split: option.splits prod.splits)
  then show ?thesis
  proof cases
    case K
    have "length w < length (dropWhile is_space r)"
      using K(2) by (rule placeholder_at_shorter)
    also have "\<dots> \<le> length r" by (simp add: length_dropWhile_le)
    also have "\<dots> \<le> length s" using K(1) by (rule kw)
    finally show ?thesis .
  next
    case B
    then show ?thesis by (rule placeholder_at_shorter)
  qed
qed

lemma lazy_rest_shorter:
  "lazy_rest s = Some (p4, p5, w) \<Longrightarrow> length w < Suc (length s)"
proof (induction s)
  case Nil
  then show ?case using raw_rest_at_shorter [of "[]" p4 p5 w] by simp
next
  case (Cons c cs)
  show ?case
  proof (cases "raw_rest_at (c # cs)")
    case None
    with Cons show ?thesis by (auto split: if_splits)
  next
    case (Some m)
    with Cons.prems have "raw_rest_at (c # cs) = Some (p4, p5, w)" by simp
    then show ?thesis using raw_rest_at_shorter by fastforce
  qed
qed

lemma upto_quote_shorter:
  "upto_quote q w = Some r \<Longrightarrow> length r < length w"
  by (induction w) (auto split: if_splits)

lemma raw_at_shorter:
  "raw_at this s = Some (repl, rest) \<Longrightarrow> length rest < length s"
proof -
  assume a: "raw_at this s = Some (repl, rest)"
  from a consider
      (Q) q t p4 p5 w where "s = q # t" "lazy_rest t = Some (p4, p5, w)"
        "rest = (case upto_quote q w of Some r \<Rightarrow> r | None \<Rightarrow> w)"
    | (B) p4 p5 w where "raw_rest_at s = Some (p4, p5, w)" "rest = after_placeholder w"
    unfolding raw_at_def
    by (auto simp: Let_def split: option.splits list.splits if_splits prod.splits)
  then show ?thesis
  proof cases
    case Q
    have "length rest \<le> length w"
      using Q(3) upto_quote_shorter [of q w] by (auto split: option.splits dest: less_imp_le)
    moreover have "length w < Suc (length t)"
      using Q(2) by (rule lazy_rest_shorter)
    ultimately show ?thesis using Q(1) by simp
  next
    case B
    have "length rest \<le> length w"
      unfolding B(2) after_placeholder_def by (simp split: list.splits)
    moreover have "length w < length s"
      using B(1) by (rule raw_rest_at_shorter)
    ultimately show ?thesis by simp
  qed
qed

text \<open>\<^verbatim>\<open>query.replace(pattern, callback)\<close>: every match from the left is replaced by
  what the callback returns; an exception of the callback ends the replacement.\<close>

function raw_replace :: "medoo \<Rightarrow> string \<Rightarrow> error + string" where
  "raw_replace this [] = Inr []"
| "raw_replace this (c # cs) =
     (case raw_at this (c # cs) of
        None \<Rightarrow> map_sum id ((#) c) (raw_replace this cs)
      | Some (repl, rest) \<Rightarrow>
          (case repl of
             Inl e \<Rightarrow> Inl e
           | Inr r \<Rightarrow> map_sum id ((@) r) (raw_replace this rest)))"
  by pat_completeness auto
termination
  by (relation "measure (\<lambda>(this, s). length s)") (auto dest: raw_at_shorter)

text \<open>\<^verbatim>\<open>buildRaw(raw, map)\<close> returns \<^verbatim>\<open>false\<close> for a value that is not a \<^verbatim>\<open>Raw\<close>, and
  otherwise the rewritten text after merging the fragment's parameters into the parameter
  map (\<^verbatim>\<open>map\<close> in the source, \<open>pm\<close> here).\<close>

definition buildRaw :: "medoo \<Rightarrow> jsval \<Rightarrow> obj \<Rightarrow> error + (jsval \<times> obj)" where
  "buildRaw this raw pm =
     (case raw of
        VRaw value rmap \<Rightarrow>
          (case raw_replace this value of
             Inl e \<Rightarrow> Inl e
           | Inr query \<Rightarrow> Inr (VStr query, if rmap \<noteq> [] then obj_assign pm rmap else pm))
      | _ \<Rightarrow> Inr (VBool False, pm))"

section \<open>The condition compiler\<close>

text \<open>\<^verbatim>\<open>/^\d+$/\<close>, the test for a positional key.\<close>

definition is_int_key :: "string \<Rightarrow> bool" where
  "is_int_key key = (key \<noteq> [] \<and> list_all is_digit key)"

text \<open>
  \<^verbatim>\<open>/^(AND|OR)(\s+#.*)?$/\<close>, and the relationship that \<^verbatim>\<open>/^(AND|OR)/\<close> then extracts:
  the keyword alone, or the keyword, white space, \<^verbatim>\<open>#\<close> and a comment without line
  terminators up to the end of the key.
\<close>

definition logical_key :: "string \<Rightarrow> string option" where
  "logical_key key =
     first_some
       (\<lambda>relationship.
          case strip_prefix relationship key of
            None \<Rightarrow> None
          | Some r \<Rightarrow>
              if r = [] then Some relationship
              else
                (let w = takeWhile is_space r; t = dropWhile is_space r
                 in if w \<noteq> [] \<and> t \<noteq> [] \<and> hd t = CHR ''#'' \<and> \<not> list_ex is_newline (tl t)
                    then Some relationship else None))
       [''AND'', ''OR'']"

text \<open>The character classes \<^verbatim>\<open>[a-zA-Z0-9_\.]\<close> and \<^verbatim>\<open>[a-zA-Z0-9_\.\(\)\*]\<close>.\<close>

definition is_colch :: "char \<Rightarrow> bool" where
  "is_colch c = (is_word c \<or> c = CHR ''.'')"

definition is_keych :: "char \<Rightarrow> bool" where
  "is_keych c = (is_word c \<or> c \<in> set ''.()*'')"

text \<open>
  \<^verbatim>\<open>([a-zA-Z0-9_\.]+)\[(?<operator>>=?|<=?|!?=)\]([a-zA-Z0-9_\.]+)\<close> at the front of a
  string (the source escapes the punctuation of the operators): the two columns and the
  operator of a column-to-column comparison. The operator must be followed by the closing
  bracket, so at most one alternative fits.
\<close>

definition colcmp_at :: "string \<Rightarrow> (string \<times> string \<times> string) option" where
  "colcmp_at s =
     (let c1 = takeWhile is_colch s; r = dropWhile is_colch s
      in if c1 = [] then None
         else
           (case r of
              [] \<Rightarrow> None
            | b # r1 \<Rightarrow>
                if b \<noteq> CHR ''['' then None
                else
                  first_some
                    (\<lambda>operator.
                       case strip_prefix (operator @ '']'') r1 of
                         None \<Rightarrow> None
                       | Some r2 \<Rightarrow>
                           if takeWhile is_colch r2 = [] then None
                           else Some (c1, operator, takeWhile is_colch r2))
                    [''>='', ''>'', ''<='', ''<'', ''!='', ''='']))"

text \<open>
  \<^verbatim>\<open>([a-zA-Z0-9_\.\(\)\*]+)(\[(?<operator>>=?|<=?|!|<>|><|!?~|REGEXP)\])?\<close> at the
  front of a key: the column and the operator, when one follows in brackets. The flag
  \<^verbatim>\<open>i\<close> lets \<^verbatim>\<open>REGEXP\<close> be written in any case, and the group holds it as written.
\<close>

definition key_at :: "string \<Rightarrow> (string \<times> string option) option" where
  "key_at s =
     (let column = takeWhile is_keych s; r = dropWhile is_keych s
      in if column = [] then None
         else
           (case r of
              [] \<Rightarrow> Some (column, None)
            | b # r1 \<Rightarrow>
                if b \<noteq> CHR ''['' then Some (column, None)
                else
                  (case first_some
                          (\<lambda>operator.
                             case strip_prefix (operator @ '']'') r1 of
                               None \<Rightarrow> None
                             | Some _ \<Rightarrow> Some operator)
                          [''>='', ''>'', ''<='', ''<'', ''!'', ''<>'', ''><'', ''!~'', ''~''] of
                     Some operator \<Rightarrow> Some (column, Some operator)
                   | None \<Rightarrow>
                       (case strip_nocase ''REGEXP'' r1 of
                          None \<Rightarrow> Some (column, None)
                        | Some (operator, r2) \<Rightarrow>
                            if r2 \<noteq> [] \<and> hd r2 = CHR '']'' then Some (column, Some operator)
                            else Some (column, None)))))"

text \<open>
  \<^verbatim>\<open>/(\[.+\]|[\*\?\!\%#^-_]|%.+|.+%)/\<close>, the test that keeps a LIKE pattern as it is. The
  range \<^verbatim>\<open>^-_\<close> of the class holds the two characters \<^verbatim>\<open>^\<close> and \<^verbatim>\<open>_\<close>; the last
  two alternatives need a \<^verbatim>\<open>%\<close>, which the class accepts already.
\<close>

fun close_after :: "string \<Rightarrow> bool" where
  "close_after [] = False"
| "close_after (c # cs) = (c = CHR '']'' \<or> (\<not> is_newline c \<and> close_after cs))"

fun bracket_at :: "string \<Rightarrow> bool" where
  "bracket_at (a # c # cs) = (a = CHR ''['' \<and> \<not> is_newline c \<and> close_after cs)"
| "bracket_at _ = False"

fun bracket_in :: "string \<Rightarrow> bool" where
  "bracket_in [] = False"
| "bracket_in (c # cs) = (bracket_at (c # cs) \<or> bracket_in cs)"

definition like_wild :: "string \<Rightarrow> bool" where
  "like_wild s = (bracket_in s \<or> list_ex (\<lambda>c. c \<in> set ''*?!%#^_'') s)"

text \<open>\<^verbatim>\<open>xs[i]\<close> on an array: \<^verbatim>\<open>undefined\<close> past the end.\<close>

definition arr_get :: "jsval list \<Rightarrow> nat \<Rightarrow> jsval" where
  "arr_get xs i = (if i < length xs then xs ! i else VUndefined)"

text \<open>
  The \<^verbatim>\<open>forEach\<close> of the branches for lists: element \<open>index\<close> is bound to the name
  \<^verbatim>\<open>`${mapKey}${index}_i`\<close>, and the names are collected.
\<close>

fun bind_items :: "string \<Rightarrow> nat \<Rightarrow> jsval list \<Rightarrow> obj \<Rightarrow> string list \<times> obj" where
  "bind_items mk index [] pm = ([], pm)"
| "bind_items mk index (item # items) pm =
     (let stackKey = mk @ nat_str index @ ''_i'';
          (placeholders, pm') = bind_items mk (Suc index) items (obj_set pm stackKey item)
      in (stackKey # placeholders, pm'))"

text \<open>
  The \<^verbatim>\<open>forEach\<close> of the LIKE branch: element \<open>index\<close> is coerced to a string, wrapped
  in \<^verbatim>\<open>%\<close> unless it has a wildcard of its own, and bound to \<^verbatim>\<open>`${mapKey}L${index}`\<close>.
\<close>

fun like_items :: "string \<Rightarrow> string \<Rightarrow> string \<Rightarrow> nat \<Rightarrow> jsval list \<Rightarrow> obj \<Rightarrow> string list \<times> obj" where
  "like_items column operator mk index [] pm = ([], pm)"
| "like_items column operator mk index (item # items) pm =
     (let itemStr = (if \<not> like_wild (js_string item) then ''%'' @ js_string item @ ''%''
                     else js_string item);
          clause = column @ (if operator = ''!~'' then '' NOT'' else []) @ '' LIKE ''
                     @ mk @ ''L'' @ nat_str index;
          (likeClauses, pm') =
             like_items column operator mk (Suc index) items
               (obj_set pm (mk @ ''L'' @ nat_str index) (VStr itemStr))
      in (clause # likeClauses, pm'))"

text \<open>The column of an entry: a token with both parentheses is a call of an SQL function
  and stays as it is, any other token is quoted.\<close>

definition dataImplode_column :: "medoo \<Rightarrow> string \<Rightarrow> error + string" where
  "dataImplode_column this m1 =
     (if CHR ''('' \<in> set m1 \<and> CHR '')'' \<in> set m1 then Inr m1 else columnQuote this m1)"

text \<open>
  The branch of an entry whose key carries an operator (\<^verbatim>\<open>if (match.groups &&
  match.groups.operator)\<close>), given the parameter name \<open>mk\<close> (\<^verbatim>\<open>mapKey\<close> in the source) drawn for the entry and its
  column. The result is what the entry pushes on the stack (nothing or one fragment), the
  instance and the parameter map. In the LIKE branch \<^verbatim>\<open>valueArray\<close> is always an array,
  which has no property \<^verbatim>\<open>AND\<close> or \<^verbatim>\<open>OR\<close>, so the connector stays \<^verbatim>\<open>' OR '\<close>.
\<close>

definition dataImplode_operator ::
  "medoo \<Rightarrow> string \<Rightarrow> string \<Rightarrow> string \<Rightarrow> jsval \<Rightarrow> obj \<Rightarrow> error + (string list \<times> medoo \<times> obj)" where
  "dataImplode_operator this mk column operator value pm =
     (let type = typeof value
      in if operator \<in> set [''>'', ''>='', ''<'', ''<=''] then
           (let condition = column @ '' '' @ operator @ '' ''
            in if type = ''number'' then
                 Inr ([condition @ mk], this, obj_set pm mk value)
               else if isRaw value then
                 (case buildRaw this value pm of
                    Inl e \<Rightarrow> Inl e
                  | Inr (raw, pm') \<Rightarrow> Inr ([condition @ js_string raw], this, pm'))
               else Inr ([condition @ mk], this, obj_set pm mk value))
         else if operator = ''!'' then
           (if type = ''object'' then
              (case value of
                 VNull \<Rightarrow> Inr ([column @ '' IS NOT NULL''], this, pm)
               | VArr items \<Rightarrow>
                   (let (placeholders, pm') = bind_items mk 0 items pm
                    in Inr ([column @ '' NOT IN ('' @ join '', '' placeholders @ '')''],
                            this, pm'))
               | VRaw _ _ \<Rightarrow>
                   (case buildRaw this value pm of
                      Inl e \<Rightarrow> Inl e
                    | Inr (raw, pm') \<Rightarrow>
                        Inr ([column @ '' != '' @ js_string raw], this, pm'))
               | _ \<Rightarrow> Inr ([], this, pm))
            else Inr ([column @ '' != '' @ mk], this,
                      obj_set pm mk (typeMap value type)))
         else if operator = ''~'' \<or> operator = ''!~'' then
           (let valueArray = (case value of VArr items \<Rightarrow> items | _ \<Rightarrow> [value]);
                connector = '' OR '';
                (likeClauses, pm') = like_items column operator mk 0 valueArray pm
            in Inr ([''('' @ join connector likeClauses @ '')''], this, pm'))
         else if operator = ''<>'' \<or> operator = ''><'' then
           (case value of
              VArr items \<Rightarrow>
                (let columnStr = (if operator = ''><'' then column @ '' NOT'' else column)
                 in Inr ([''('' @ columnStr @ '' BETWEEN '' @ mk @ ''a AND ''
                            @ mk @ ''b)''], this,
                         obj_set (obj_set pm (mk @ ''a'') (arr_get items 0))
                           (mk @ ''b'') (arr_get items 1)))
            | _ \<Rightarrow> Inr ([], this, pm))
         else if operator = ''REGEXP'' then
           Inr ([column @ '' REGEXP '' @ mk], this, obj_set pm mk value)
         else Inr ([], this, pm))"

text \<open>The branch of an entry whose key carries no operator: the direct comparison.\<close>

definition dataImplode_direct ::
  "medoo \<Rightarrow> string \<Rightarrow> string \<Rightarrow> jsval \<Rightarrow> obj \<Rightarrow> error + (string list \<times> medoo \<times> obj)" where
  "dataImplode_direct this mk column value pm =
     (let type = typeof value
      in if type = ''object'' then
           (case value of
              VNull \<Rightarrow> Inr ([column @ '' IS NULL''], this, pm)
            | VArr items \<Rightarrow>
                (let (placeholders, pm') = bind_items mk 0 items pm
                 in Inr ([column @ '' IN ('' @ join '', '' placeholders @ '')''], this, pm'))
            | VRaw _ _ \<Rightarrow>
                (case buildRaw this value pm of
                   Inl e \<Rightarrow> Inl e
                 | Inr (raw, pm') \<Rightarrow> Inr ([column @ '' = '' @ js_string raw], this, pm'))
            | _ \<Rightarrow> Inr ([], this, pm))
         else Inr ([column @ '' = '' @ mk], this, obj_set pm mk (typeMap value type)))"

text \<open>
  One entry that is not a logical group: the body of the loop of \<^verbatim>\<open>dataImplode\<close> from
  \<^verbatim>\<open>const mapKey = this.mapKey()\<close> on. A positional key whose value has the shape of a
  column-to-column comparison pushes that comparison (\<^verbatim>\<open>value.match\<close> exists on strings
  only); any other entry parses its key and goes to one of the two branches above. A key
  without any character of the class makes the match \<^verbatim>\<open>null\<close>, and reading
  \<^verbatim>\<open>match[1]\<close> raises a TypeError.
\<close>

definition dataImplode_item ::
  "medoo \<Rightarrow> string \<Rightarrow> jsval \<Rightarrow> obj \<Rightarrow> error + (string list \<times> medoo \<times> obj)" where
  "dataImplode_item this0 key value pm =
     (let mk = fst (mapKey this0); this = snd (mapKey this0)
      in if is_int_key key \<and> search colcmp_at (js_string value) \<noteq> None then
           (case value of
              VStr s \<Rightarrow>
                (case search colcmp_at s of
                   None \<Rightarrow> Inl TypeError
                 | Some (c1, operator, c2) \<Rightarrow>
                     (case columnQuote this c1 of
                        Inl e \<Rightarrow> Inl e
                      | Inr q1 \<Rightarrow>
                          (case columnQuote this c2 of
                             Inl e \<Rightarrow> Inl e
                           | Inr q2 \<Rightarrow> Inr ([q1 @ '' '' @ operator @ '' '' @ q2], this, pm))))
            | _ \<Rightarrow> Inl TypeError)
         else
           (case search key_at key of
              None \<Rightarrow> Inl TypeError
            | Some (m1, op) \<Rightarrow>
                (case dataImplode_column this m1 of
                   Inl e \<Rightarrow> Inl e
                 | Inr column \<Rightarrow>
                     (case op of
                        Some operator \<Rightarrow> dataImplode_operator this mk column operator value pm
                      | None \<Rightarrow> dataImplode_direct this mk column value pm))))"

text \<open>
  \<^verbatim>\<open>dataImplode\<close> walks the entries of \<open>data\<close>. An entry whose value has type
  \<^verbatim>\<open>object\<close> and whose key is a logical keyword is compiled recursively, with the keyword
  as the conjunctor, and wrapped in parentheses; a list whose first element is a list goes
  through \<^verbatim>\<open>innerConjunct\<close>. Every other entry is \<open>dataImplode_item\<close>. The fragments are
  joined with the conjunctor and a blank. The two functions \<open>_loop\<close> are the
  \<^verbatim>\<open>for\<close> loops of the two methods.

  The recursion descends into the values of logical entries only; \<open>group_weight\<close>
  measures them.
\<close>

fun group_weight :: "obj \<Rightarrow> nat" where
  "group_weight [] = 0"
| "group_weight ((key, value) # rest) =
     (if typeof value = ''object'' \<and> logical_key key \<noteq> None then 2 * size value + 2 else 0)
       + group_weight rest"

lemma group_weight_le: "group_weight kvs \<le> 2 * size_list (size_prod (\<lambda>_. 0) size) kvs"
  by (induction kvs) auto

lemma group_weight_index: "group_weight (index_from i xs) \<le> 2 * size_list size xs"
proof (induction xs arbitrary: i)
  case Nil
  show ?case by simp
next
  case (Cons a xs)
  have "group_weight (index_from (Suc i) xs) \<le> 2 * size_list size xs"
    by (rule Cons.IH)
  then show ?case by auto
qed

lemma group_weight_chars: "group_weight (index_from i (map (\<lambda>c. VStr [c]) s)) = 0"
  by (induction s arbitrary: i) (auto simp: typeof_def)

lemma logical_key_value: "logical_key ''value'' = None" "logical_key ''map'' = None"
  by (simp_all add: logical_key_def)

lemma group_weight_entries: "entries data = Some kvs \<Longrightarrow> group_weight kvs < 2 * size data + 1"
proof (cases data)
  case (VArr xs)
  assume "entries data = Some kvs"
  with VArr show ?thesis
    using group_weight_index [of 0 xs] by (simp add: entries_def)
next
  case (VObj kvs')
  assume "entries data = Some kvs"
  with VObj show ?thesis
    using group_weight_le [of kvs] by (simp add: entries_def)
qed (auto simp: entries_def group_weight_chars logical_key_value typeof_def)

function dataImplode :: "medoo \<Rightarrow> jsval \<Rightarrow> obj \<Rightarrow> string \<Rightarrow> error + (string \<times> medoo \<times> obj)"
  and dataImplode_loop :: "medoo \<Rightarrow> obj \<Rightarrow> obj \<Rightarrow> string \<Rightarrow> error + (string list \<times> medoo \<times> obj)"
  and innerConjunct :: "medoo \<Rightarrow> jsval list \<Rightarrow> obj \<Rightarrow> string \<Rightarrow> string \<Rightarrow> error + (string \<times> medoo \<times> obj)"
  and innerConjunct_loop :: "medoo \<Rightarrow> jsval list \<Rightarrow> obj \<Rightarrow> string \<Rightarrow> error + (string list \<times> medoo \<times> obj)"
where
  "dataImplode this data pm conjunctor =
     (case entries data of
        None \<Rightarrow> Inl TypeError
      | Some kvs \<Rightarrow>
          (case dataImplode_loop this kvs pm conjunctor of
             Inl e \<Rightarrow> Inl e
           | Inr (stack, this', pm') \<Rightarrow> Inr (join (conjunctor @ '' '') stack, this', pm')))"
| "dataImplode_loop this [] pm conjunctor = Inr ([], this, pm)"
| "dataImplode_loop this ((key, value) # rest) pm conjunctor =
     (case
        (case (if typeof value = ''object'' then logical_key key else None) of
           Some relationship \<Rightarrow>
             (case
                (case value of
                   VArr xs \<Rightarrow>
                     if isArray (arr_get xs 0) then
                       innerConjunct this xs pm ('' '' @ relationship) conjunctor
                     else dataImplode this value pm ('' '' @ relationship)
                 | _ \<Rightarrow> dataImplode this value pm ('' '' @ relationship))
              of
                Inl e \<Rightarrow> Inl e
              | Inr (inner, this', pm') \<Rightarrow> Inr ([''('' @ inner @ '')''], this', pm'))
         | None \<Rightarrow> dataImplode_item this key value pm)
      of
        Inl e \<Rightarrow> Inl e
      | Inr (pushed, this', pm') \<Rightarrow>
          (case dataImplode_loop this' rest pm' conjunctor of
             Inl e \<Rightarrow> Inl e
           | Inr (stack, this'', pm'') \<Rightarrow> Inr (pushed @ stack, this'', pm'')))"
| "innerConjunct this data pm conjunctor outerConjunctor =
     (case innerConjunct_loop this data pm conjunctor of
        Inl e \<Rightarrow> Inl e
      | Inr (stack, this', pm') \<Rightarrow> Inr (join (outerConjunctor @ '' '') stack, this', pm'))"
| "innerConjunct_loop this [] pm conjunctor = Inr ([], this, pm)"
| "innerConjunct_loop this (value # rest) pm conjunctor =
     (case dataImplode this value pm conjunctor of
        Inl e \<Rightarrow> Inl e
      | Inr (inner, this', pm') \<Rightarrow>
          (case innerConjunct_loop this' rest pm' conjunctor of
             Inl e \<Rightarrow> Inl e
           | Inr (stack, this'', pm'') \<Rightarrow> Inr ((''('' @ inner @ '')'') # stack, this'', pm'')))"
  by pat_completeness auto
termination
  apply (relation "measures
     [\<lambda>x. case x of
              Inl (Inl (this, data, pm, c)) \<Rightarrow> 2 * size data + 1
            | Inl (Inr (this, kvs, pm, c)) \<Rightarrow> group_weight kvs
            | Inr (Inl (this, xs, pm, c, oc)) \<Rightarrow> 2 * size_list size xs + 1
            | Inr (Inr (this, xs, pm, c)) \<Rightarrow> 2 * size_list size xs,
      \<lambda>x. case x of
              Inl (Inr (this, kvs, pm, c)) \<Rightarrow> length kvs
            | _ \<Rightarrow> 0]")
  apply (auto dest: group_weight_entries split: if_splits)
  done

declare dataImplode.simps [simp del]
declare dataImplode_loop.simps(2) [simp del]
declare innerConjunct.simps [simp del]
declare innerConjunct_loop.simps(2) [simp del]

section \<open>The clause assembler\<close>

text \<open>\<^verbatim>\<open>array.map(column => this.columnQuote(column))\<close>: the first exception ends the map.\<close>

fun columnQuote_all :: "medoo \<Rightarrow> jsval list \<Rightarrow> error + string list" where
  "columnQuote_all this [] = Inr []"
| "columnQuote_all this (column # columns) =
     (case columnQuoteV this column of
        Inl e \<Rightarrow> Inl e
      | Inr q \<Rightarrow>
          (case columnQuote_all this columns of
             Inl e \<Rightarrow> Inl e
           | Inr qs \<Rightarrow> Inr (q # qs)))"

text \<open>\<^verbatim>\<open>arrayQuote(array)\<close>: numbers as they are, every other value through the driver's
  \<^verbatim>\<open>escape\<close>.\<close>

definition arrayQuote :: "medoo \<Rightarrow> jsval list \<Rightarrow> string" where
  "arrayQuote this array =
     join '','' (map (\<lambda>value. if typeof value = ''number'' then js_string value
                             else escape this value) array)"

text \<open>The reserved keys, which \<^verbatim>\<open>whereClause\<close> deletes from its copy of the conditions.\<close>

definition special_keys :: "string list" where
  "special_keys = [''GROUP'', ''ORDER'', ''HAVING'', ''LIMIT'', ''LIKE'', ''MATCH'']"

text \<open>The block \<^verbatim>\<open>if (where.GROUP)\<close> with the \<^verbatim>\<open>HAVING\<close> inside it.\<close>

definition where_group :: "medoo \<Rightarrow> jsval \<Rightarrow> obj \<Rightarrow> error + (string \<times> medoo \<times> obj)" where
  "where_group this where pm =
     (let GROUP = get_prop where ''GROUP''; HAVING = get_prop where ''HAVING''
      in if truthy GROUP then
           (case
              (case GROUP of
                 VArr columns \<Rightarrow>
                   (case columnQuote_all this columns of
                      Inl e \<Rightarrow> Inl e
                    | Inr groupColumns \<Rightarrow> Inr ('' GROUP BY '' @ join '','' groupColumns, pm))
               | VRaw _ _ \<Rightarrow>
                   (case buildRaw this GROUP pm of
                      Inl e \<Rightarrow> Inl e
                    | Inr (raw, pm') \<Rightarrow> Inr ('' GROUP BY '' @ js_string raw, pm'))
               | _ \<Rightarrow>
                   (case columnQuoteV this GROUP of
                      Inl e \<Rightarrow> Inl e
                    | Inr q \<Rightarrow> Inr ('' GROUP BY '' @ q, pm)))
            of
              Inl e \<Rightarrow> Inl e
            | Inr (g, pm1) \<Rightarrow>
                if truthy HAVING then
                  (if isRaw HAVING then
                     (case buildRaw this HAVING pm1 of
                        Inl e \<Rightarrow> Inl e
                      | Inr (raw, pm2) \<Rightarrow> Inr (g @ '' HAVING '' @ js_string raw, this, pm2))
                   else
                     (case dataImplode this HAVING pm1 '' AND'' of
                        Inl e \<Rightarrow> Inl e
                      | Inr (h, this', pm2) \<Rightarrow> Inr (g @ '' HAVING '' @ h, this', pm2)))
                else Inr (g, this, pm1))
         else Inr ([], this, pm))"

text \<open>The loop over an \<^verbatim>\<open>ORDER\<close> object, and the loop over an \<^verbatim>\<open>ORDER\<close> array.\<close>

fun order_object :: "medoo \<Rightarrow> obj \<Rightarrow> error + string list" where
  "order_object this [] = Inr []"
| "order_object this ((column, direction) # rest) =
     (case
        (case direction of
           VArr items \<Rightarrow>
             (case columnQuote this column of
                Inl e \<Rightarrow> Inl e
              | Inr q \<Rightarrow> Inr [''FIELD('' @ q @ '', '' @ arrayQuote this items @ '')''])
         | _ \<Rightarrow>
             if direction = VStr ''ASC'' \<or> direction = VStr ''DESC'' then
               (case columnQuote this column of
                  Inl e \<Rightarrow> Inl e
                | Inr q \<Rightarrow> Inr [q @ '' '' @ js_string direction])
             else if is_int_key column then
               (case columnQuoteV this direction of
                  Inl e \<Rightarrow> Inl e
                | Inr q \<Rightarrow> Inr [q])
             else Inr [])
      of
        Inl e \<Rightarrow> Inl e
      | Inr pushed \<Rightarrow>
          (case order_object this rest of
             Inl e \<Rightarrow> Inl e
           | Inr orderStack \<Rightarrow> Inr (pushed @ orderStack)))"

fun order_array :: "medoo \<Rightarrow> jsval list \<Rightarrow> error + string list" where
  "order_array this [] = Inr []"
| "order_array this (value # rest) =
     (case
        (case value of
           VStr s \<Rightarrow>
             (case columnQuote this s of
                Inl e \<Rightarrow> Inl e
              | Inr q \<Rightarrow> Inr [q])
         | _ \<Rightarrow> Inr [])
      of
        Inl e \<Rightarrow> Inl e
      | Inr pushed \<Rightarrow>
          (case order_array this rest of
             Inl e \<Rightarrow> Inl e
           | Inr orderStack \<Rightarrow> Inr (pushed @ orderStack)))"

text \<open>The block \<^verbatim>\<open>if (where.ORDER)\<close>.\<close>

definition where_order :: "medoo \<Rightarrow> jsval \<Rightarrow> obj \<Rightarrow> error + (string \<times> obj)" where
  "where_order this where pm =
     (let ORDER = get_prop where ''ORDER''
      in if truthy ORDER then
           (case ORDER of
              VRaw _ _ \<Rightarrow>
                (case buildRaw this ORDER pm of
                   Inl e \<Rightarrow> Inl e
                 | Inr (raw, pm') \<Rightarrow> Inr ('' ORDER BY '' @ js_string raw, pm'))
            | VObj kvs \<Rightarrow>
                (case order_object this kvs of
                   Inl e \<Rightarrow> Inl e
                 | Inr orderStack \<Rightarrow> Inr ('' ORDER BY '' @ join '','' orderStack, pm))
            | VArr values \<Rightarrow>
                (case order_array this values of
                   Inl e \<Rightarrow> Inl e
                 | Inr orderStack \<Rightarrow> Inr ('' ORDER BY '' @ join '','' orderStack, pm))
            | _ \<Rightarrow>
                (case columnQuoteV this ORDER of
                   Inl e \<Rightarrow> Inl e
                 | Inr q \<Rightarrow> Inr ('' ORDER BY '' @ q, pm)))
         else Inr ([], pm))"

text \<open>The block \<^verbatim>\<open>if (where.LIMIT)\<close>; the template literals coerce the elements of the
  list to strings.\<close>

definition where_limit :: "jsval \<Rightarrow> string" where
  "where_limit where =
     (let LIMIT = get_prop where ''LIMIT''
      in if truthy LIMIT then
           (if typeof LIMIT = ''number'' then '' LIMIT '' @ js_string LIMIT
            else
              (case LIMIT of
                 VArr items \<Rightarrow>
                   if length items = 2
                   then '' LIMIT '' @ js_string (items ! 1) @ '' OFFSET '' @ js_string (items ! 0)
                   else []
               | _ \<Rightarrow> []))
         else [])"

text \<open>
  \<^verbatim>\<open>whereClause(where, map)\<close>. The copy \<^verbatim>\<open>{ ...where }\<close> has the entries of \<open>where\<close>
  (the indices, for an array); the conditions that remain after the reserved keys are
  deleted are compiled with the conjunctor \<^verbatim>\<open>' AND'\<close>.
\<close>

definition whereClause :: "medoo \<Rightarrow> jsval \<Rightarrow> obj \<Rightarrow> error + (string \<times> medoo \<times> obj)" where
  "whereClause this where pm =
     (if typeof where = ''object'' \<and> where \<noteq> VNull \<and> \<not> isRaw where then
        (let conditions =
               filter (\<lambda>(k, _). k \<notin> set special_keys)
                 (case entries where of Some kvs \<Rightarrow> kvs | None \<Rightarrow> [])
         in case
              (if conditions \<noteq> [] then
                 (case dataImplode this (VObj conditions) pm '' AND'' of
                    Inl e \<Rightarrow> Inl e
                  | Inr (c, this', pm') \<Rightarrow> Inr ('' WHERE '' @ c, this', pm'))
               else Inr ([], this, pm))
            of
              Inl e \<Rightarrow> Inl e
            | Inr (w, this1, pm1) \<Rightarrow>
                (case where_group this1 where pm1 of
                   Inl e \<Rightarrow> Inl e
                 | Inr (g, this2, pm2) \<Rightarrow>
                     (case where_order this2 where pm2 of
                        Inl e \<Rightarrow> Inl e
                      | Inr (ob, pm3) \<Rightarrow>
                          Inr (w @ g @ ob @ where_limit where, this2, pm3))))
      else if isRaw where then
        (case buildRaw this where pm of
           Inl e \<Rightarrow> Inl e
         | Inr (raw, pm') \<Rightarrow> Inr ('' '' @ js_string raw, this, pm'))
      else Inr ([], this, pm))"

section \<open>The join clause builder\<close>

text \<open>
  The key of a join entry is matched with
  \<^verbatim>\<open>(\[(?<join><>?|><?)\])?(?<table>[a-zA-Z0-9_]+)\s?(\((?<alias>[a-zA-Z0-9_]+)\))?\<close>
  (the source escapes the angle brackets). \<open>alias_at\<close> is the last group, \<open>table_at\<close> the
  table with the optional white space and alias, \<open>join_at\<close> the whole pattern at the front of
  a string: first with the direction tag, then, when that fails, without it.
\<close>

definition alias_at :: "string \<Rightarrow> string option" where
  "alias_at s =
     (case s of
        [] \<Rightarrow> None
      | c # r \<Rightarrow>
          if c = CHR ''('' \<and> takeWhile is_word r \<noteq> [] \<and> dropWhile is_word r \<noteq> []
             \<and> hd (dropWhile is_word r) = CHR '')''
          then Some (takeWhile is_word r) else None)"

definition table_at :: "string \<Rightarrow> (string \<times> string option) option" where
  "table_at s =
     (let table = takeWhile is_word s; r = dropWhile is_word s
      in if table = [] then None
         else Some (table, alias_at (case r of [] \<Rightarrow> [] | c # r' \<Rightarrow> if is_space c then r' else r)))"

definition join_at :: "string \<Rightarrow> (string option \<times> string \<times> string option) option" where
  "join_at s =
     (case
        (case s of
           [] \<Rightarrow> None
         | b # r \<Rightarrow>
             if b \<noteq> CHR ''['' then None
             else
               first_some
                 (\<lambda>tag.
                    case strip_prefix (tag @ '']'') r of
                      None \<Rightarrow> None
                    | Some r' \<Rightarrow>
                        (case table_at r' of
                           None \<Rightarrow> None
                         | Some (table, alias) \<Rightarrow> Some (Some tag, table, alias)))
                 [''<>'', ''<'', ''><'', ''>''])
      of
        Some m \<Rightarrow> Some m
      | None \<Rightarrow>
          (case table_at s of
             None \<Rightarrow> None
           | Some (table, alias) \<Rightarrow> Some (None, table, alias)))"

text \<open>The table \<^verbatim>\<open>joinArray\<close>; a key that is not in it reads \<^verbatim>\<open>undefined\<close>.\<close>

definition joinArray :: "string \<Rightarrow> jsval" where
  "joinArray tag =
     obj_get [(''>'', VStr ''LEFT''), (''<'', VStr ''RIGHT''), (''<>'', VStr ''FULL''),
              (''><'', VStr ''INNER'')] tag"

text \<open>\<^verbatim>\<open>array.join(sep)\<close>: \<^verbatim>\<open>null\<close> and \<^verbatim>\<open>undefined\<close> give the empty string.\<close>

definition arr_join :: "string \<Rightarrow> jsval list \<Rightarrow> string" where
  "arr_join sep xs =
     join sep (map (\<lambda>x. if x = VNull \<or> x = VUndefined then [] else js_string x) xs)"

text \<open>The loop that builds the equalities of an \<^verbatim>\<open>ON\<close> relation; \<open>other\<close> is the alias of
  the joined table, or its name when it has no alias.\<close>

fun join_on :: "medoo \<Rightarrow> string \<Rightarrow> string \<Rightarrow> obj \<Rightarrow> error + string list" where
  "join_on this table other [] = Inr []"
| "join_on this table other ((key, value) # rest) =
     (case (if CHR ''.'' \<in> set key then columnQuote this key
            else (case tableQuote this table of
                    Inl e \<Rightarrow> Inl e
                  | Inr t \<Rightarrow> Inr (t @ ''.'' @ dq @ key @ dq))) of
        Inl e \<Rightarrow> Inl e
      | Inr leftSide \<Rightarrow>
          (case tableQuote this other of
             Inl e \<Rightarrow> Inl e
           | Inr t \<Rightarrow>
               (let rightSide = t @ ''.'' @ dq @ js_string value @ dq
                in case join_on this table other rest of
                     Inl e \<Rightarrow> Inl e
                   | Inr joins \<Rightarrow> Inr ((leftSide @ '' = '' @ rightSide) # joins))))"

text \<open>The relation of one entry: \<^verbatim>\<open>USING\<close> for a string and for a list that starts with
  a non-empty string, \<^verbatim>\<open>ON\<close> for any other list and any other object, and the value
  itself, which the template literal coerces, for everything else.\<close>

definition join_relation :: "medoo \<Rightarrow> string \<Rightarrow> string \<Rightarrow> jsval \<Rightarrow> error + string" where
  "join_relation this table other relation =
     (case relation of
        VStr s \<Rightarrow> Inr (''USING ('' @ dq @ s @ dq @ '')'')
      | VArr xs \<Rightarrow>
          if truthy (arr_get xs 0) \<and> typeof (arr_get xs 0) = ''string''
          then Inr (''USING ('' @ dq @ arr_join (dq @ '', '' @ dq) xs @ dq @ '')'')
          else
            (case join_on this table other (index_from 0 xs) of
               Inl e \<Rightarrow> Inl e
             | Inr joins \<Rightarrow> Inr (''ON '' @ join '' AND '' joins))
      | VNull \<Rightarrow> Inr (js_string relation)
      | VObj kvs \<Rightarrow>
          (case join_on this table other kvs of
             Inl e \<Rightarrow> Inl e
           | Inr joins \<Rightarrow> Inr (''ON '' @ join '' AND '' joins))
      | VRaw s m \<Rightarrow>
          (case join_on this table other [(''value'', VStr s), (''map'', VObj m)] of
             Inl e \<Rightarrow> Inl e
           | Inr joins \<Rightarrow> Inr (''ON '' @ join '' AND '' joins))
      | _ \<Rightarrow> Inr (js_string relation))"

text \<open>
  \<^verbatim>\<open>buildJoin(table, join)\<close>: the loop over the entries and the join of the clauses. A
  key that the pattern does not match anywhere gives \<^verbatim>\<open>null\<close>, and reading
  \<^verbatim>\<open>match.groups\<close> raises a TypeError; a key matched without a direction tag is passed over.
\<close>

fun buildJoin_loop :: "medoo \<Rightarrow> string \<Rightarrow> obj \<Rightarrow> error + string list" where
  "buildJoin_loop this table [] = Inr []"
| "buildJoin_loop this table ((subTable, relation) # rest) =
     (case search join_at subTable of
        None \<Rightarrow> Inl TypeError
      | Some (None, tbl, alias) \<Rightarrow> buildJoin_loop this table rest
      | Some (Some tag, tbl, alias) \<Rightarrow>
          (case join_relation this table (case alias of Some a \<Rightarrow> a | None \<Rightarrow> tbl) relation of
             Inl e \<Rightarrow> Inl e
           | Inr relationStr \<Rightarrow>
               (case tableQuote this tbl of
                  Inl e \<Rightarrow> Inl e
                | Inr t \<Rightarrow>
                    (case (case alias of
                             None \<Rightarrow> Inr (t @ '' '')
                           | Some a \<Rightarrow>
                               (case tableQuote this a of
                                  Inl e \<Rightarrow> Inl e
                                | Inr q \<Rightarrow> Inr (t @ '' '' @ ''AS '' @ q @ '' ''))) of
                       Inl e \<Rightarrow> Inl e
                     | Inr tableName \<Rightarrow>
                         (case buildJoin_loop this table rest of
                            Inl e \<Rightarrow> Inl e
                          | Inr tableJoin \<Rightarrow>
                              Inr ((js_string (joinArray tag) @ '' JOIN '' @ tableName @ relationStr)
                                     # tableJoin))))))"

definition buildJoin :: "medoo \<Rightarrow> string \<Rightarrow> jsval \<Rightarrow> error + string" where
  "buildJoin this table join_spec =
     (case entries join_spec of
        None \<Rightarrow> Inl TypeError
      | Some kvs \<Rightarrow>
          (case buildJoin_loop this table kvs of
             Inl e \<Rightarrow> Inl e
           | Inr tableJoin \<Rightarrow> Inr (join '' '' tableJoin)))"

section \<open>The column projection compiler\<close>

text \<open>
  The key of a \<^verbatim>\<open>Raw\<close> column is matched with
  \<^verbatim>\<open>(?<column>[a-zA-Z0-9_\.]+)(\s*\[(?<type>(String|Bool|Int|Number))\])?\<close>, of which
  \<^verbatim>\<open>columnPush\<close> reads the group \<^verbatim>\<open>column\<close> only: the first run of characters of the class.
\<close>

definition raw_key_at :: "string \<Rightarrow> string option" where
  "raw_key_at s = (if takeWhile is_colch s = [] then None else Some (takeWhile is_colch s))"

text \<open>
  A column string is matched with
  \<^verbatim>\<open>(?<column>[a-zA-Z0-9_\.]+)(?:\s*\((?<alias>[a-zA-Z0-9_]+)\))?(?:\s*\[(?<type>(?:String|Bool|Int|Number|Object|JSON))\])?\<close>
  under the flag \<^verbatim>\<open>i\<close>. \<open>alias_group\<close> is the second group with what follows it,
  \<open>type_group\<close> the third, which holds the type as written.
\<close>

definition alias_group :: "string \<Rightarrow> (string \<times> string) option" where
  "alias_group s =
     (case dropWhile is_space s of
        [] \<Rightarrow> None
      | c # r \<Rightarrow>
          if c = CHR ''('' \<and> takeWhile is_word r \<noteq> [] \<and> dropWhile is_word r \<noteq> []
             \<and> hd (dropWhile is_word r) = CHR '')''
          then Some (takeWhile is_word r, tl (dropWhile is_word r)) else None)"

definition type_group :: "string list \<Rightarrow> string \<Rightarrow> string option" where
  "type_group names s =
     (case dropWhile is_space s of
        [] \<Rightarrow> None
      | c # r \<Rightarrow>
          if c \<noteq> CHR ''['' then None
          else
            first_some
              (\<lambda>name.
                 case strip_nocase name r of
                   None \<Rightarrow> None
                 | Some (type, r') \<Rightarrow> if r' \<noteq> [] \<and> hd r' = CHR '']'' then Some type else None)
              names)"

definition column_at :: "string \<Rightarrow> (string \<times> string option \<times> string option) option" where
  "column_at s =
     (let column = takeWhile is_colch s; r = dropWhile is_colch s
      in if column = [] then None
         else
           (case alias_group r of
              Some (alias, r') \<Rightarrow>
                Some (column, Some alias,
                      type_group [''String'', ''Bool'', ''Int'', ''Number'', ''Object'', ''JSON''] r')
            | None \<Rightarrow>
                Some (column, None,
                      type_group [''String'', ''Bool'', ''Int'', ''Number'', ''Object'', ''JSON''] r)))"

text \<open>The branch of \<^verbatim>\<open>columnPush\<close> for a string under a positional key: what it pushes,
  and the string that the entry holds afterwards (the alias, with the type when there is
  one).\<close>

definition columnPush_string :: "medoo \<Rightarrow> string \<Rightarrow> bool \<Rightarrow> error + (string list \<times> jsval)" where
  "columnPush_string this value isJoin =
     (if isJoin \<and> CHR ''*'' \<in> set value then Inl CannotUseTableStar
      else
        (case search column_at value of
           None \<Rightarrow> Inl TypeError
         | Some (column, Some alias, type) \<Rightarrow>
             (case columnQuote this column of
                Inl e \<Rightarrow> Inl e
              | Inr c \<Rightarrow>
                  (case columnQuote this alias of
                     Inl e \<Rightarrow> Inl e
                   | Inr a \<Rightarrow>
                       Inr ([c @ '' AS '' @ a],
                            VStr (alias @ (case type of Some t \<Rightarrow> '' ['' @ t @ '']'' | None \<Rightarrow> [])))))
         | Some (column, None, type) \<Rightarrow>
             (case columnQuote this column of
                Inl e \<Rightarrow> Inl e
              | Inr c \<Rightarrow> Inr ([c], VStr value))))"

text \<open>The branch for a \<^verbatim>\<open>Raw\<close> under a key that is not positional.\<close>

definition columnPush_raw :: "medoo \<Rightarrow> string \<Rightarrow> jsval \<Rightarrow> obj \<Rightarrow> error + (string list \<times> obj)" where
  "columnPush_raw this key value pm =
     (case buildRaw this value pm of
        Inl e \<Rightarrow> Inl e
      | Inr (raw, pm') \<Rightarrow>
          (case search raw_key_at key of
             None \<Rightarrow> Inl TypeError
           | Some column \<Rightarrow>
               (case columnQuote this column of
                  Inl e \<Rightarrow> Inl e
                | Inr c \<Rightarrow> Inr ([js_string raw @ '' AS '' @ c], pm'))))"

text \<open>The lists among the values of a list of entries, which the compiler descends into.\<close>

fun array_weight :: "obj \<Rightarrow> nat" where
  "array_weight [] = 0"
| "array_weight ((key, value) # rest) =
     (if isArray value then 2 * size value + 2 else 0) + array_weight rest"

lemma array_weight_le: "array_weight kvs \<le> 2 * size_list (size_prod (\<lambda>_. 0) size) kvs"
  by (induction kvs) auto

lemma array_weight_index: "array_weight (index_from i xs) \<le> 2 * size_list size xs"
proof (induction xs arbitrary: i)
  case Nil
  show ?case by simp
next
  case (Cons a xs)
  have "array_weight (index_from (Suc i) xs) \<le> 2 * size_list size xs"
    by (rule Cons.IH)
  then show ?case by auto
qed

lemma array_weight_chars: "array_weight (index_from i (map (\<lambda>c. VStr [c]) s)) = 0"
  by (induction s arbitrary: i) (auto simp: isArray_def)

text \<open>The entries that the loop of \<^verbatim>\<open>columnPush\<close> walks: a string is first wrapped in a
  list.\<close>

definition columnPush_entries :: "jsval \<Rightarrow> obj option" where
  "columnPush_entries columns =
     (case columns of VStr s \<Rightarrow> Some [(''0'', columns)] | _ \<Rightarrow> entries columns)"

lemma array_weight_entries:
  "columnPush_entries columns = Some kvs \<Longrightarrow> array_weight kvs < Suc (2 * size columns)"
proof (cases columns)
  case (VArr xs)
  assume "columnPush_entries columns = Some kvs"
  with VArr show ?thesis
    using array_weight_index [of 0 xs] by (simp add: columnPush_entries_def entries_def)
next
  case (VObj kvs')
  assume "columnPush_entries columns = Some kvs"
  with VObj show ?thesis
    using array_weight_le [of kvs] by (simp add: columnPush_entries_def entries_def)
qed (auto simp: columnPush_entries_def entries_def isArray_def)

text \<open>
  \<^verbatim>\<open>columnPush(columns, map, root, isJoin)\<close> returns the select list; it also rewrites an
  aliased column of \<open>columns\<close> in place, so the model returns the specification as the
  caller sees it afterwards, and the parameter map. \<open>columnPush_loop\<close> is the
  \<^verbatim>\<open>for\<close> loop and \<open>columnPush_entry\<close> its body; \<open>n\<close> is
  \<^verbatim>\<open>Object.keys(columns).length\<close>.
\<close>

function columnPush :: "medoo \<Rightarrow> jsval \<Rightarrow> obj \<Rightarrow> bool \<Rightarrow> bool \<Rightarrow> error + (string \<times> jsval \<times> obj)"
  and columnPush_loop ::
    "medoo \<Rightarrow> obj \<Rightarrow> nat \<Rightarrow> obj \<Rightarrow> bool \<Rightarrow> bool \<Rightarrow> error + (string list \<times> obj \<times> obj)"
  and columnPush_entry ::
    "medoo \<Rightarrow> string \<Rightarrow> jsval \<Rightarrow> nat \<Rightarrow> obj \<Rightarrow> bool \<Rightarrow> bool \<Rightarrow> error + (string list \<times> jsval \<times> obj)"
where
  "columnPush this columns pm root isJoin =
     (if columns = VStr ''*'' then Inr (''*'', columns, pm)
      else
        (case columnPush_entries columns of
           None \<Rightarrow> Inl TypeError
         | Some kvs \<Rightarrow>
             (case columnPush_loop this kvs (length kvs) pm root isJoin of
                Inl e \<Rightarrow> Inl e
              | Inr (stack, kvs', pm') \<Rightarrow>
                  Inr (join '','' stack,
                       (case columns of
                          VObj _ \<Rightarrow> VObj kvs'
                        | VArr _ \<Rightarrow> VArr (map snd kvs')
                        | _ \<Rightarrow> columns),
                       pm'))))"
| "columnPush_loop this [] n pm root isJoin = Inr ([], [], pm)"
| "columnPush_loop this ((key, value) # rest) n pm root isJoin =
     (case columnPush_entry this key value n pm root isJoin of
        Inl e \<Rightarrow> Inl e
      | Inr (pushed, value', pm') \<Rightarrow>
          (case columnPush_loop this rest n pm' root isJoin of
             Inl e \<Rightarrow> Inl e
           | Inr (stack, rest', pm'') \<Rightarrow> Inr (pushed @ stack, (key, value') # rest', pm'')))"
| "columnPush_entry this key value n pm root isJoin =
     (if isArray value then
        (if \<not> is_int_key key \<and> root \<and> n = 1 then
           (case columnQuote this key of
              Inl e \<Rightarrow> Inl e
            | Inr q \<Rightarrow>
                (case columnPush this value pm False isJoin of
                   Inl e \<Rightarrow> Inl e
                 | Inr (s, value', pm') \<Rightarrow> Inr ([q, s], value', pm')))
         else
           (case columnPush this value pm False isJoin of
              Inl e \<Rightarrow> Inl e
            | Inr (s, value', pm') \<Rightarrow> Inr ([s], value', pm')))
      else if \<not> is_int_key key \<and> isRaw value then
        (case columnPush_raw this key value pm of
           Inl e \<Rightarrow> Inl e
         | Inr (pushed, pm') \<Rightarrow> Inr (pushed, value, pm'))
      else
        (case value of
           VStr s \<Rightarrow>
             if is_int_key key then
               (case columnPush_string this s isJoin of
                  Inl e \<Rightarrow> Inl e
                | Inr (pushed, value') \<Rightarrow> Inr (pushed, value', pm))
             else Inr ([], value, pm)
         | _ \<Rightarrow> Inr ([], value, pm)))"
  by pat_completeness auto
termination
  apply (relation "measures
     [\<lambda>x. case x of
              Inl (this, columns, pm, root, isJoin) \<Rightarrow> 2 * size columns + 1
            | Inr (Inl (this, kvs, n, pm, root, isJoin)) \<Rightarrow> array_weight kvs
            | Inr (Inr (this, key, value, n, pm, root, isJoin)) \<Rightarrow>
                (if isArray value then 2 * size value + 2 else 0),
      \<lambda>x. case x of
              Inr (Inl (this, kvs, n, pm, root, isJoin)) \<Rightarrow> Suc (length kvs)
            | _ \<Rightarrow> 0]")
  apply (auto dest: array_weight_entries)
  done

declare columnPush.simps [simp del]
declare columnPush_entry.simps [simp del]

section \<open>The result mapper\<close>

text \<open>
  \<^verbatim>\<open>dataMap\<close> builds every row object as an array (\<^verbatim>\<open>const currentStack = []\<close>) that it
  uses as a dictionary. What such an array holds is a value of the row (\<open>Field\<close>) or a
  nested row object (\<open>Row\<close>), which is its \<^verbatim>\<open>length\<close> and the list of its own enumerable
  properties, in the order of enumeration.
\<close>

datatype rowval = Field jsval | Row nat "(string \<times> rowval) list"

type_synonym row = "nat \<times> (string \<times> rowval) list"

text \<open>
  The functions of the platform that \<^verbatim>\<open>dataMap\<close> calls are parameters: \<^verbatim>\<open>parseFloat\<close>,
  \<^verbatim>\<open>parseInt\<close>, \<^verbatim>\<open>JSON.parse\<close>, which returns \<open>None\<close> where it throws, and the
  conversion to a number that the runtime applies to a string or an object assigned to the
  \<^verbatim>\<open>length\<close> of an array: \<open>ToNumber\<close> returns the error where the conversion of an object
  raises one, \<open>None\<close> where the number is not an integer (\<^verbatim>\<open>NaN\<close>, an infinity, a
  fraction), and the integer otherwise.
\<close>

record platform =
  parseFloat :: "jsval \<Rightarrow> jsval"
  parseInt :: "jsval \<Rightarrow> jsval"
  JSON_parse :: "jsval \<Rightarrow> jsval option"
  ToNumber :: "rowval \<Rightarrow> error + int option"

text \<open>The column map: from a column string or the key of a \<^verbatim>\<open>Raw\<close> column to the pair of
  the result key and the declared type.\<close>

type_synonym column_map = "(string \<times> (string \<times> string)) list"

text \<open>
  The length that an assignment to \<^verbatim>\<open>length\<close> sets: the value is converted to a number,
  which must be an integer from \<open>0\<close> to \<open>2^32 - 1\<close>; anything else raises a RangeError.
  \<^verbatim>\<open>undefined\<close> converts to \<^verbatim>\<open>NaN\<close>, \<^verbatim>\<open>null\<close> to \<open>0\<close>, a boolean to \<open>0\<close> or \<open>1\<close>.
\<close>

definition array_length :: "platform \<Rightarrow> rowval \<Rightarrow> error + nat" where
  "array_length pf v =
     (case
        (case v of
           Field VUndefined \<Rightarrow> Inr None
         | Field VNull \<Rightarrow> Inr (Some 0)
         | Field (VBool b) \<Rightarrow> Inr (Some (if b then 1 else 0))
         | Field (VNum n) \<Rightarrow> Inr (Some n)
         | _ \<Rightarrow> ToNumber pf v)
      of
        Inl e \<Rightarrow> Inl e
      | Inr None \<Rightarrow> Inl RangeError
      | Inr (Some n) \<Rightarrow> if 0 \<le> n \<and> n < 2 ^ 32 then Inr (nat n) else Inl RangeError)"

text \<open>\<^verbatim>\<open>o[k] = v\<close> on the list of the own properties of an object or an array: an existing
  property keeps its place, a new index goes among the indices, any other new key to the
  end.\<close>

definition prop_set :: "(string \<times> 'a) list \<Rightarrow> string \<Rightarrow> 'a \<Rightarrow> (string \<times> 'a) list" where
  "prop_set kvs k v =
     (if k \<in> fst ` set kvs then map (\<lambda>(k', v'). if k' = k then (k', v) else (k', v')) kvs
      else if is_index k then
        takeWhile (\<lambda>(k', _). is_index k' \<and> str_num k' < str_num k) kvs
          @ [(k, v)] @ dropWhile (\<lambda>(k', _). is_index k' \<and> str_num k' < str_num k) kvs
      else kvs @ [(k, v)])"

text \<open>
  \<^verbatim>\<open>stack[k] = v\<close> on a row object. The key \<^verbatim>\<open>length\<close> sets the length of the array,
  which removes the elements from the new length on and creates no property, or raises
  the RangeError. The key \<^verbatim>\<open>__proto__\<close> reaches the inherited setter, which creates no
  property either. An index at or past the length extends the array.
\<close>

definition row_set :: "platform \<Rightarrow> row \<Rightarrow> string \<Rightarrow> rowval \<Rightarrow> error + row" where
  "row_set pf stack k v =
     (case stack of
        (len, props) \<Rightarrow>
          if k = ''length'' then
            (case array_length pf v of
               Inl e \<Rightarrow> Inl e
             | Inr n \<Rightarrow> Inr (n, filter (\<lambda>(k', _). \<not> (is_index k' \<and> int n \<le> str_num k')) props))
          else if k = ''__proto__'' then Inr stack
          else Inr (if is_index k then max len (nat (str_num k) + 1) else len, prop_set props k v))"

text \<open>\<^verbatim>\<open>Object.assign(stack, data)\<close>: every property of the row is assigned in turn.\<close>

fun row_assign :: "platform \<Rightarrow> row \<Rightarrow> obj \<Rightarrow> error + row" where
  "row_assign pf stack [] = Inr stack"
| "row_assign pf stack ((k, v) # rest) =
     (case row_set pf stack k (Field v) of
        Inl e \<Rightarrow> Inl e
      | Inr stack' \<Rightarrow> row_assign pf stack' rest)"

text \<open>
  The branch of the loop of \<^verbatim>\<open>dataMap\<close> for a positional key or a \<^verbatim>\<open>Raw\<close> value: the
  row object under construction (\<^verbatim>\<open>stack\<close>) after the entry. For the types \<^verbatim>\<open>Object\<close> and
  \<^verbatim>\<open>JSON\<close> the \<^verbatim>\<open>try\<close> block holds the assignment as well as the call of \<^verbatim>\<open>JSON.parse\<close>,
  so the \<^verbatim>\<open>catch\<close> block, which assigns the source value, also runs when the assignment of
  the parsed value raises; an error of the \<^verbatim>\<open>catch\<close> block itself is not caught.
\<close>

definition dataMap_field ::
  "platform \<Rightarrow> obj \<Rightarrow> column_map \<Rightarrow> string \<Rightarrow> jsval \<Rightarrow> row \<Rightarrow> error + row" where
  "dataMap_field pf data columnMap key value stack =
     (case map_of columnMap (if isRaw value then key else js_string value) of
        None \<Rightarrow> Inr stack
      | Some (columnKey, type) \<Rightarrow>
          (let item = obj_get data columnKey
           in if type \<noteq> [] then
                (if isRaw value \<and> type \<in> set [''Object'', ''JSON''] then Inr stack
                 else if item = VNull then row_set pf stack columnKey (Field VNull)
                 else if type = ''Number'' then row_set pf stack columnKey (Field (parseFloat pf item))
                 else if type = ''Int'' then row_set pf stack columnKey (Field (parseInt pf item))
                 else if type = ''Bool'' then row_set pf stack columnKey (Field (VBool (truthy item)))
                 else if type = ''Object'' \<or> type = ''JSON'' then
                   (case JSON_parse pf item of
                      None \<Rightarrow> row_set pf stack columnKey (Field item)
                    | Some parsed \<Rightarrow>
                        (case row_set pf stack columnKey (Field parsed) of
                           Inl e \<Rightarrow> row_set pf stack columnKey (Field item)
                         | Inr stack' \<Rightarrow> Inr stack'))
                 else row_set pf stack columnKey (Field item))
              else row_set pf stack columnKey (Field item)))"

text \<open>A measure of values under which every entry of an object, and each of the two
  fields of a \<^verbatim>\<open>Raw\<close>, is smaller than the whole.\<close>

fun depth :: "jsval \<Rightarrow> nat" where
  "depth (VArr xs) = Suc (sum_list (map depth xs))"
| "depth (VObj kvs) = Suc (sum_list (map (\<lambda>kv. Suc (Suc (depth (snd kv)))) kvs))"
| "depth (VRaw s kvs) = 5 + sum_list (map (\<lambda>kv. Suc (Suc (depth (snd kv)))) kvs)"
| "depth _ = 0"

text \<open>
  \<^verbatim>\<open>dataMap(data, columns, columnMap, stack, false, result)\<close>, the part after the branch
  \<^verbatim>\<open>if (root)\<close>: it fills \<^verbatim>\<open>stack\<close>, which the model returns, or raises. The branch
  \<^verbatim>\<open>if (root)\<close> calls this part with a new, empty array. An entry that is neither
  positional nor a \<^verbatim>\<open>Raw\<close> maps its value into a new array and assigns that array.
\<close>

function dataMap :: "platform \<Rightarrow> obj \<Rightarrow> jsval \<Rightarrow> column_map \<Rightarrow> row \<Rightarrow> error + row"
  and dataMap_loop :: "platform \<Rightarrow> obj \<Rightarrow> obj \<Rightarrow> column_map \<Rightarrow> row \<Rightarrow> error + row"
where
  "dataMap pf data columns columnMap stack =
     (if columns = VStr ''*'' \<or> isArray columns \<or> typeof columns \<noteq> ''object'' \<or> columns = VNull
      then row_assign pf stack data
      else dataMap_loop pf data (case entries columns of Some kvs \<Rightarrow> kvs | None \<Rightarrow> []) columnMap stack)"
| "dataMap_loop pf data [] columnMap stack = Inr stack"
| "dataMap_loop pf data ((key, value) # rest) columnMap stack =
     (case
        (if is_int_key key \<or> isRaw value then dataMap_field pf data columnMap key value stack
         else
           (case dataMap pf data value columnMap (0, []) of
              Inl e \<Rightarrow> Inl e
            | Inr (len, props) \<Rightarrow> row_set pf stack key (Row len props)))
      of
        Inl e \<Rightarrow> Inl e
      | Inr stack' \<Rightarrow> dataMap_loop pf data rest columnMap stack')"
  by pat_completeness auto
termination
  apply (relation "measure
     (\<lambda>x. case x of
              Inl (pf, data, columns, columnMap, stack) \<Rightarrow> Suc (depth columns)
            | Inr (pf, data, kvs, columnMap, stack) \<Rightarrow>
                sum_list (map (\<lambda>kv. Suc (Suc (depth (snd kv)))) kvs))")
  apply (auto simp: entries_def isArray_def typeof_def split: jsval.splits)
  done

declare dataMap.simps [simp del]
section \<open>The select statement\<close>










section \<open>Predicates of the specification\<close>

text \<open>The specification's pattern \<^verbatim>\<open>^[A-Za-z0-9_]+$\<close>, in its own words: a string that is
  not empty and has word characters only.\<close>

definition spec_identifier :: "string \<Rightarrow> bool" where
  "spec_identifier s = (s \<noteq> [] \<and> (\<forall>c\<in>set s. is_word c))"

text \<open>What the loop returns when an entry pushes the fragments \<open>pushed\<close> and the rest of
  the loop returns \<open>r\<close>.\<close>

definition entry_then ::
  "string list \<Rightarrow> error + (string list \<times> medoo \<times> obj) \<Rightarrow> error + (string list \<times> medoo \<times> obj)" where
  "entry_then pushed r = (case r of Inl e \<Rightarrow> Inl e | Inr (stack, s) \<Rightarrow> Inr (pushed @ stack, s))"

text \<open>An instance without a table prefix whose counter is fresh, for the examples.\<close>

definition db0 :: medoo where
  "db0 = \<lparr>prefix = [], guid = 0, escape = js_string\<rparr>"


text \<open>A platform for the examples, whose texts are \<^verbatim>\<open>{"a":1}\<close> and \<^verbatim>\<open>{bad\<close>: only the
  first parses, to an object, and neither of them, nor that object, converts to a
  number.\<close>

definition pf0 :: platform where
  "pf0 = \<lparr>parseFloat = id, parseInt = id,
          JSON_parse = (\<lambda>v. if v = VStr (''{'' @ dq @ ''a'' @ dq @ '':1}'') then Some (VObj [(''a'', VNum 1)])
                            else None),
          ToNumber = (\<lambda>v. Inr None)\<rparr>"
text \<open>The parameter names of the elements of a list with \<open>n\<close> elements, from element
  \<open>index\<close> on: \<^verbatim>\<open>`${mapKey}${index}_i`\<close>.\<close>

definition item_names :: "string \<Rightarrow> nat \<Rightarrow> nat \<Rightarrow> string list" where
  "item_names mk index n = map (\<lambda>i. mk @ nat_str i @ ''_i'') [index..<index + n]"

text \<open>
  The entries of a column specification among which a wildcard is selected: a string with
  a \<^verbatim>\<open>*\<close> under a positional key, here or in a list nested at any depth.
\<close>

inductive wildcard_selected :: "obj \<Rightarrow> bool" where
  here: "is_int_key key \<Longrightarrow> CHR ''*'' \<in> set s \<Longrightarrow> wildcard_selected ((key, VStr s) # rest)"
| nested: "wildcard_selected (index_from 0 xs) \<Longrightarrow> wildcard_selected ((key, VArr xs) # rest)"
| later: "wildcard_selected rest \<Longrightarrow> wildcard_selected (entry # rest)"

section \<open>Auxiliary facts\<close>

subsection \<open>Keys and operators\<close>

lemma columnQuote_guid [simp]: "columnQuote (this\<lparr>guid := n\<rparr>) s = columnQuote this s"
  by (simp add: columnQuote_def)

lemma tableQuote_guid [simp]: "tableQuote (this\<lparr>guid := n\<rparr>) s = tableQuote this s"
  by (simp add: tableQuote_def)

lemma takeWhile_all: "list_all P xs \<Longrightarrow> takeWhile P xs = xs"
  by (simp add: list_all_iff)

lemma dropWhile_all: "list_all P xs \<Longrightarrow> dropWhile P xs = []"
  by (simp add: list_all_iff)

lemma digit_keych: "is_digit c \<Longrightarrow> is_keych c"
  by (auto simp: is_digit_def is_keych_def is_word_def)

lemma space_not_keych: "is_space c \<Longrightarrow> \<not> is_keych c"
  by (auto simp: is_space_def is_keych_def is_word_def)

lemma key_at_run:
  assumes "list_all is_keych a" "a \<noteq> []" "r = [] \<or> \<not> is_keych (hd r) \<and> hd r \<noteq> CHR ''[''"
  shows "key_at (a @ r) = Some (a, None)"
proof -
  have t: "takeWhile is_keych (a @ r) = a" and d: "dropWhile is_keych (a @ r) = r"
    using assms by (cases r; simp add: list_all_iff takeWhile_append2 dropWhile_append2)+
  show ?thesis
    using assms(2,3) unfolding key_at_def t d Let_def
    by (cases r) auto
qed

lemma int_key_no_operator:
  assumes "is_int_key key"
  shows "search key_at key = Some (key, None)"
proof -
  from assms obtain c cs where k: "key = c # cs" and d: "list_all is_digit key"
    by (cases key) (auto simp: is_int_key_def)
  from d have "list_all is_keych key"
    by (auto simp: list_all_iff digit_keych)
  then have "key_at (key @ []) = Some (key, None)"
    using k by (intro key_at_run) auto
  then show ?thesis using k by simp
qed

lemma strip_prefix_Some: "strip_prefix p s = Some r \<Longrightarrow> s = p @ r"
  by (induction p s rule: strip_prefix.induct) (auto split: if_splits)

lemma logical_no_operator:
  assumes "logical_key key = Some relationship"
  shows "search key_at key = Some (relationship, None)"
proof -
  from assms obtain r where rel: "relationship = ''AND'' \<or> relationship = ''OR''"
    and key: "key = relationship @ r"
    and r: "r = [] \<or> (takeWhile is_space r \<noteq> [])"
    unfolding logical_key_def
    by (auto simp: Let_def split: option.splits if_splits dest!: strip_prefix_Some)
  have "r = [] \<or> \<not> is_keych (hd r) \<and> hd r \<noteq> CHR ''[''"
  proof (cases r)
    case Nil
    then show ?thesis by simp
  next
    case (Cons c cs)
    with r have "is_space c" by (auto split: if_splits)
    then show ?thesis using Cons space_not_keych by (auto simp: is_space_def)
  qed
  moreover have "list_all is_keych relationship" "relationship \<noteq> []"
    using rel by (auto simp: is_keych_def is_word_def)
  ultimately have "key_at key = Some (relationship, None)"
    unfolding key by (rule key_at_run [rotated 2])
  moreover from rel key obtain c cs where "key = c # cs" by auto
  ultimately show ?thesis by simp
qed

lemma item_entry:
  assumes "typeof value \<noteq> ''object'' \<or> logical_key key = None"
  shows "dataImplode_loop this ((key, value) # rest) pm conjunctor =
     (case dataImplode_item this key value pm of
        Inl e \<Rightarrow> Inl e
      | Inr (pushed, this', pm') \<Rightarrow> entry_then pushed (dataImplode_loop this' rest pm' conjunctor))"
  using assms
  by (auto simp: dataImplode_loop.simps(2) entry_then_def split: sum.splits prod.splits)

lemma operator_entry_is_item:
  assumes "search key_at key = Some (m1, Some operator)"
  shows "dataImplode_loop this ((key, value) # rest) pm conjunctor =
     (case dataImplode_item this key value pm of
        Inl e \<Rightarrow> Inl e
      | Inr (pushed, this', pm') \<Rightarrow> entry_then pushed (dataImplode_loop this' rest pm' conjunctor))"
proof -
  have "logical_key key = None"
    using assms logical_no_operator [of key] by (cases "logical_key key") auto
  then show ?thesis
    by (simp add: item_entry)
qed

lemma entry_then_Nil [simp]: "entry_then [] r = r"
  by (simp add: entry_then_def split: sum.splits)

lemma entry_then_Inr [simp]: "entry_then pushed (Inr (stack, s)) = Inr (pushed @ stack, s)"
  by (simp add: entry_then_def)

lemma entry_then_Inl [simp]: "entry_then pushed (Inl e) = Inl e"
  by (simp add: entry_then_def)

lemma operator_item:
  assumes "search key_at key = Some (m1, Some operator)"
  shows "\<not> (is_int_key key \<and> search colcmp_at (js_string value) \<noteq> None)"
  using assms int_key_no_operator [of key] by auto


subsection \<open>Decimal names\<close>

lemma digit_char_inj: "a < 10 \<Longrightarrow> b < 10 \<Longrightarrow> digit_char a = digit_char b \<Longrightarrow> a = b"
proof -
  assume a: "a < 10" and b: "b < 10" and e: "digit_char a = digit_char b"
  have d: "distinct ''0123456789''" by simp
  have "a < length ''0123456789''" "b < length ''0123456789''" using a b by simp_all
  with d e show "a = b"
    unfolding digit_char_def by (simp only: nth_eq_iff_index_eq)
qed

lemma digit_char_digit: "d < 10 \<Longrightarrow> is_digit (digit_char d)"
proof -
  assume "d < 10"
  then have "d < length ''0123456789''" by simp
  then have "''0123456789'' ! d \<in> set ''0123456789''" by (rule nth_mem)
  then show ?thesis by (simp only: digit_char_def is_digit_def)
qed

lemma nat_str_not_Nil: "nat_str n \<noteq> []"
  by (subst nat_str.simps) simp

lemma nat_str_digits: "list_all is_digit (nat_str n)"
proof (induction n rule: nat_str.induct)
  case (1 n)
  show ?case
  proof (cases "n < 10")
    case True
    then show ?thesis by (subst nat_str.simps) (simp add: digit_char_digit)
  next
    case False
    then show ?thesis
      using 1 by (subst nat_str.simps) (simp add: digit_char_digit)
  qed
qed

lemma nat_str_inj: "nat_str m = nat_str n \<Longrightarrow> m = n"
proof (induction m arbitrary: n rule: nat_str.induct)
  case (1 m)
  show ?case
  proof (cases "m < 10")
    case m: True
    show ?thesis
    proof (cases "n < 10")
      case True
      with m 1(2) show ?thesis
        by (simp add: nat_str.simps [of m] nat_str.simps [of n] digit_char_inj)
    next
      case False
      with m 1(2) show ?thesis
        using nat_str_not_Nil [of "n div 10"]
        by (simp add: nat_str.simps [of m] nat_str.simps [of n])
    qed
  next
    case m: False
    show ?thesis
    proof (cases "n < 10")
      case True
      with m 1(2) show ?thesis
        using nat_str_not_Nil [of "m div 10"]
        by (simp add: nat_str.simps [of m] nat_str.simps [of n])
    next
      case False
      with m 1(2) have e: "nat_str (m div 10) = nat_str (n div 10)"
        and d: "digit_char (m mod 10) = digit_char (n mod 10)"
        by (simp_all add: nat_str.simps [of m] nat_str.simps [of n])
      from e m have "m div 10 = n div 10" by (rule 1(1) [rotated])
      moreover from d have "m mod 10 = n mod 10" by (simp add: digit_char_inj)
      ultimately show ?thesis by (metis div_mult_mod_eq)
    qed
  qed
qed

subsection \<open>Objects\<close>

lemma map_of_replace:
  "map_of (map (\<lambda>(k', v'). if k' = k then (k', v) else (k', v')) kvs) k' =
     (if k' = k then (if k \<in> fst ` set kvs then Some v else None) else map_of kvs k')"
  by (induction kvs) (auto split: if_splits)

lemma map_of_insert_between:
  assumes "k \<notin> fst ` set kvs"
  shows "map_of (takeWhile P kvs @ [(k, v)] @ dropWhile P kvs) k' =
     (if k' = k then Some v else map_of kvs k')"
proof -
  have k: "map_of (takeWhile P kvs) k = None"
    using assms by (auto simp: map_of_eq_None_iff dest: set_takeWhileD)
  have "map_of kvs k' = map_of (takeWhile P kvs @ dropWhile P kvs) k'" by simp
  also have "\<dots> = (map_of (dropWhile P kvs) ++ map_of (takeWhile P kvs)) k'"
    by (simp only: map_of_append)
  finally have s: "map_of kvs k' = (map_of (dropWhile P kvs) ++ map_of (takeWhile P kvs)) k'" .
  show ?thesis
    using k s by (auto simp: map_add_def split: option.splits)
qed

lemma map_of_obj_set:
  "map_of (obj_set kvs k v) k' = (if k' = k then Some v else map_of kvs k')"
proof (cases "k \<in> fst ` set kvs")
  case True
  then show ?thesis by (simp add: obj_set_def map_of_replace)
next
  case False
  then have n: "map_of kvs k = None" by (simp add: map_of_eq_None_iff)
  show ?thesis
  proof (cases "is_index k")
    case True
    with False show ?thesis
      unfolding obj_set_def using map_of_insert_between [OF False] by simp
  next
    case i: False
    with False n show ?thesis by (auto simp: obj_set_def map_add_def split: option.splits)
  qed
qed

lemma obj_get_set: "obj_get (obj_set kvs k v) k' = (if k' = k then v else obj_get kvs k')"
  by (simp add: obj_get_def map_of_obj_set)

lemma keys_obj_set: "fst ` set (obj_set kvs k v) = insert k (fst ` set kvs)"
proof -
  have "dom (map_of (obj_set kvs k v)) = insert k (dom (map_of kvs))"
    by (auto simp: map_of_obj_set dom_def)
  then show ?thesis by (simp add: dom_map_of_conv_image_fst)
qed

lemma obj_set_append:
  "k \<notin> fst ` set kvs \<Longrightarrow> \<not> is_index k \<Longrightarrow> obj_set kvs k v = kvs @ [(k, v)]"
  by (simp add: obj_set_def)

subsection \<open>Entries of the condition compiler\<close>

lemma dataImplode_column_guid [simp]:
  "dataImplode_column (this\<lparr>guid := n\<rparr>) m1 = dataImplode_column this m1"
  by (simp add: dataImplode_column_def)

lemma item_operator:
  assumes "search key_at key = Some (m1, Some operator)"
    and "dataImplode_column this m1 = Inr column"
  shows "dataImplode_item this key v pm =
           dataImplode_operator (snd (mapKey this)) (fst (mapKey this)) column operator v pm"
  using assms operator_item [OF assms(1), of v]
  unfolding dataImplode_item_def
  by (auto simp: mapKey_def Let_def)


lemma range_item:
  assumes "search key_at key = Some (m1, Some operator)"
    and "operator = ''<>'' \<or> operator = ''><''"
    and "dataImplode_column this m1 = Inr column"
  shows "dataImplode_item this key (VArr items) pm =
          Inr ([''('' @ column @ (if operator = ''><'' then '' NOT'' else []) @ '' BETWEEN ''
                  @ fst (mapKey this) @ ''a AND '' @ fst (mapKey this) @ ''b)''],
               snd (mapKey this),
               obj_set (obj_set pm (fst (mapKey this) @ ''a'') (arr_get items 0))
                 (fst (mapKey this) @ ''b'') (arr_get items 1))"
    and "\<not> isArray v \<Longrightarrow> dataImplode_item this key v pm = Inr ([], snd (mapKey this), pm)"
proof -
  show "dataImplode_item this key (VArr items) pm =
          Inr ([''('' @ column @ (if operator = ''><'' then '' NOT'' else []) @ '' BETWEEN ''
                  @ fst (mapKey this) @ ''a AND '' @ fst (mapKey this) @ ''b)''],
               snd (mapKey this),
               obj_set (obj_set pm (fst (mapKey this) @ ''a'') (arr_get items 0))
                 (fst (mapKey this) @ ''b'') (arr_get items 1))"
    using assms(2)
    by (auto simp: item_operator [OF assms(1,3)] dataImplode_operator_def Let_def)
  show "dataImplode_item this key v pm = Inr ([], snd (mapKey this), pm)" if "\<not> isArray v"
    using assms(2) that
    by (cases v) (auto simp: item_operator [OF assms(1,3)] dataImplode_operator_def isArray_def)
qed

subsection \<open>The counter and the quoting\<close>

lemma raw_at_guid [simp]: "raw_at (this\<lparr>guid := n\<rparr>) s = raw_at this s"
  unfolding raw_at_def columnQuote_guid tableQuote_guid ..

lemma raw_replace_guid [simp]: "raw_replace (this\<lparr>guid := n\<rparr>) s = raw_replace this s"
proof (induction "length s" arbitrary: s rule: less_induct)
  case less
  show ?case
  proof (cases s)
    case Nil
    then show ?thesis by simp
  next
    case (Cons c cs)
    have tl: "raw_replace (this\<lparr>guid := n\<rparr>) cs = raw_replace this cs"
      using less [of cs] Cons by simp
    show ?thesis
    proof (cases "raw_at this (c # cs)")
      case None
      then show ?thesis using Cons tl by simp
    next
      case (Some m)
      obtain repl rest where m: "m = (repl, rest)" by (cases m)
      have "length rest < length s"
        using Some m Cons raw_at_shorter [of this "c # cs" repl rest] by simp
      then have "raw_replace (this\<lparr>guid := n\<rparr>) rest = raw_replace this rest"
        by (rule less)
      then show ?thesis using Cons Some m by (simp split: sum.splits)
    qed
  qed
qed

lemma buildRaw_guid [simp]: "buildRaw (this\<lparr>guid := n\<rparr>) raw pm = buildRaw this raw pm"
  by (simp add: buildRaw_def split: jsval.splits)

subsection \<open>Names of list elements\<close>

lemma item_name_inj: "mk @ nat_str i @ ''_i'' = mk @ nat_str j @ ''_i'' \<Longrightarrow> i = j"
  by (simp add: nat_str_inj)

lemma item_names_distinct: "distinct (item_names mk index n)"
  unfolding item_names_def
  by (simp add: distinct_map inj_on_def nat_str_inj)

lemma item_names_Suc:
  "item_names mk index (Suc n) = (mk @ nat_str index @ ''_i'') # item_names mk (Suc index) n"
  by (simp add: item_names_def upt_rec)

lemma item_names_notin: "mk @ nat_str index @ ''_i'' \<notin> set (item_names mk (Suc index) n)"
  by (auto simp: item_names_def dest!: nat_str_inj)

lemma bind_items_names:
  "fst (bind_items mk index items pm) = item_names mk index (length items)"
proof (induction items arbitrary: index pm)
  case Nil
  show ?case by (simp add: item_names_def)
next
  case (Cons item items)
  show ?case
    using Cons [of "Suc index" "obj_set pm (mk @ nat_str index @ ''_i'') item"]
    by (simp add: item_names_Suc Let_def case_prod_beta)
qed

lemma bind_items_other:
  "k \<notin> set (item_names mk index (length items)) \<Longrightarrow>
     obj_get (snd (bind_items mk index items pm)) k = obj_get pm k"
proof (induction items arbitrary: index pm)
  case Nil
  show ?case by simp
next
  case (Cons item items)
  from Cons.prems have k: "k \<noteq> mk @ nat_str index @ ''_i''"
    and r: "k \<notin> set (item_names mk (Suc index) (length items))"
    by (simp_all add: item_names_Suc)
  show ?case
    using Cons.IH [OF r, of "obj_set pm (mk @ nat_str index @ ''_i'') item"] k
    by (simp add: Let_def obj_get_set case_prod_beta)
qed

lemma bind_items_bound:
  "i < length items \<Longrightarrow>
     obj_get (snd (bind_items mk index items pm)) (item_names mk index (length items) ! i) = items ! i"
proof (induction items arbitrary: index pm i)
  case Nil
  then show ?case by simp
next
  case (Cons item items)
  let ?pm = "obj_set pm (mk @ nat_str index @ ''_i'') item"
  have s: "snd (bind_items mk index (item # items) pm) = snd (bind_items mk (Suc index) items ?pm)"
    by (simp add: Let_def case_prod_beta)
  show ?case
  proof (cases i)
    case 0
    then show ?thesis
      using bind_items_other [OF item_names_notin, of mk index items ?pm]
      by (simp add: s item_names_Suc obj_get_set del: bind_items.simps)
  next
    case (Suc j)
    with Cons.prems have "j < length items" by simp
    then show ?thesis
      using Cons.IH [of j "Suc index" ?pm] Suc
      by (simp add: s item_names_Suc del: bind_items.simps)
  qed
qed

lemma bind_items_keys:
  "fst ` set (snd (bind_items mk index items pm)) =
     fst ` set pm \<union> set (item_names mk index (length items))"
proof (induction items arbitrary: index pm)
  case Nil
  show ?case by (simp add: item_names_def)
next
  case (Cons item items)
  show ?case
    using Cons [of "Suc index" "obj_set pm (mk @ nat_str index @ ''_i'') item"]
    by (simp add: item_names_Suc Let_def keys_obj_set case_prod_beta)
qed

lemma item_names_0 [simp]: "item_names mk index 0 = []"
  by (simp add: item_names_def)

lemma buildRaw_mapKey [simp]: "buildRaw (snd (mapKey this)) raw pm = buildRaw this raw pm"
  by (simp add: mapKey_def)

lemma not_item:
  assumes "search key_at key = Some (m1, Some ''!'')"
    and "dataImplode_column this m1 = Inr column"
  shows "dataImplode_item this key v pm =
     (if typeof v = ''object'' then
        (case v of
           VNull \<Rightarrow> Inr ([column @ '' IS NOT NULL''], snd (mapKey this), pm)
         | VArr items \<Rightarrow>
             Inr ([column @ '' NOT IN (''
                     @ join '', '' (item_names (fst (mapKey this)) 0 (length items)) @ '')''],
                  snd (mapKey this), snd (bind_items (fst (mapKey this)) 0 items pm))
         | VRaw _ _ \<Rightarrow>
             (case buildRaw this v pm of
                Inl e \<Rightarrow> Inl e
              | Inr (raw, pm') \<Rightarrow>
                  Inr ([column @ '' != '' @ js_string raw], snd (mapKey this), pm'))
         | _ \<Rightarrow> Inr ([], snd (mapKey this), pm))
      else Inr ([column @ '' != '' @ fst (mapKey this)], snd (mapKey this),
                obj_set pm (fst (mapKey this)) (typeMap v (typeof v))))"
  by (cases v)
    (simp_all add: item_operator [OF assms] dataImplode_operator_def Let_def case_prod_beta
      bind_items_names typeof_def)

lemma typeMap_scalar:
  "typeof v \<noteq> ''object'' \<Longrightarrow>
     typeMap v (typeof v) = (case v of VBool b \<Rightarrow> VStr (if b then ''1'' else ''0'') | _ \<Rightarrow> v)"
  by (cases v) (auto simp: typeMap_def typeof_def truthy_def)

lemma nat_str_0: "nat_str 0 = ''0''"
  by (simp add: nat_str.simps digit_char_def)

lemma nat_str_1: "nat_str (Suc 0) = ''1''"
  by (simp add: nat_str.simps digit_char_def)

lemma mapKey_db0: "fst (mapKey db0) = '':medoo_0_param''" "snd (mapKey db0) = db0\<lparr>guid := 1\<rparr>"
  by (simp_all add: mapKey_def db0_def nat_str_0)

lemma append_param: "obj_set pm ('':'' @ k) v = (if '':'' @ k \<in> fst ` set pm then obj_set pm ('':'' @ k) v else pm @ [('':'' @ k, v)])"
  by (simp add: obj_set_def is_index_def is_digit_def)

subsection \<open>Deleting a reserved key\<close>

lemma map_of_obj_delete:
  "map_of (obj_delete kvs k) k' = (if k' = k then None else map_of kvs k')"
  by (induction kvs) (auto simp: obj_delete_def)

lemma obj_get_delete:
  "obj_get (obj_delete kvs k) k' = (if k' = k then VUndefined else obj_get kvs k')"
  by (simp add: obj_get_def map_of_obj_delete)

lemma conditions_delete:
  "k \<in> set special_keys \<Longrightarrow>
     filter (\<lambda>(k', _). k' \<notin> set special_keys) (obj_delete kvs k) =
     filter (\<lambda>(k', _). k' \<notin> set special_keys) kvs"
  by (induction kvs) (auto simp: obj_delete_def)

lemma obj_get_absent: "k \<notin> fst ` set kvs \<Longrightarrow> obj_get kvs k = VUndefined"
  by (simp add: obj_get_def map_of_eq_None_iff [THEN iffD2])

lemma where_group_delete_having:
  "\<not> truthy (obj_get kvs ''GROUP'') \<Longrightarrow>
     where_group this (VObj (obj_delete kvs ''HAVING'')) pm = where_group this (VObj kvs) pm"
  by (simp add: where_group_def get_prop_def obj_get_delete)

lemma where_group_delete_limit:
  "where_group this (VObj (obj_delete kvs ''LIMIT'')) pm = where_group this (VObj kvs) pm"
  by (simp add: where_group_def get_prop_def obj_get_delete)

lemma where_order_delete:
  "k \<noteq> ''ORDER'' \<Longrightarrow> where_order this (VObj (obj_delete kvs k)) pm = where_order this (VObj kvs) pm"
  by (simp add: where_order_def get_prop_def obj_get_delete)

lemma where_limit_delete:
  "k \<noteq> ''LIMIT'' \<Longrightarrow> where_limit (VObj (obj_delete kvs k)) = where_limit (VObj kvs)"
  by (simp add: where_limit_def get_prop_def obj_get_delete)

lemma where_limit_deleted: "where_limit (VObj (obj_delete kvs ''LIMIT'')) = []"
  by (simp add: where_limit_def get_prop_def obj_get_delete truthy_def)

lemma whereClause_obj:
  "whereClause this (VObj kvs) pm =
     (case
        (if filter (\<lambda>(k, _). k \<notin> set special_keys) kvs \<noteq> [] then
           (case dataImplode this (VObj (filter (\<lambda>(k, _). k \<notin> set special_keys) kvs)) pm '' AND'' of
              Inl e \<Rightarrow> Inl e
            | Inr (c, this', pm') \<Rightarrow> Inr ('' WHERE '' @ c, this', pm'))
         else Inr ([], this, pm))
      of
        Inl e \<Rightarrow> Inl e
      | Inr (w, this1, pm1) \<Rightarrow>
          (case where_group this1 (VObj kvs) pm1 of
             Inl e \<Rightarrow> Inl e
           | Inr (g, this2, pm2) \<Rightarrow>
               (case where_order this2 (VObj kvs) pm2 of
                  Inl e \<Rightarrow> Inl e
                | Inr (ob, pm3) \<Rightarrow>
                    Inr (w @ g @ ob @ where_limit (VObj kvs), this2, pm3))))"
  unfolding whereClause_def
  by (simp add: typeof_def isRaw_def entries_def Let_def)

subsection \<open>The LIMIT clause\<close>

lemma limit_number:
  assumes "obj_get kvs ''LIMIT'' = VNum n" "n \<noteq> 0" "plain_decimal n"
  shows "whereClause this (VObj kvs) pm =
     map_sum id (\<lambda>(s, r). (s @ '' LIMIT '' @ int_str n, r))
       (whereClause this (VObj (obj_delete kvs ''LIMIT'')) pm)"
proof -
  have l: "''LIMIT'' \<in> set special_keys" by (simp add: special_keys_def)
  have w: "where_limit (VObj kvs) = '' LIMIT '' @ int_str n"
    using assms by (simp add: where_limit_def get_prop_def truthy_def typeof_def)
  show ?thesis
    unfolding whereClause_obj conditions_delete [OF l] where_group_delete_limit
      where_order_delete [of "''LIMIT''", simplified] where_limit_deleted w
    by (simp split: sum.splits prod.splits)
qed

lemma limit_pair:
  assumes "obj_get kvs ''LIMIT'' = VArr [VNum offset, VNum count]"
    and "plain_decimal offset" "plain_decimal count"
  shows "whereClause this (VObj kvs) pm =
     map_sum id (\<lambda>(s, r). (s @ '' LIMIT '' @ int_str count @ '' OFFSET '' @ int_str offset, r))
       (whereClause this (VObj (obj_delete kvs ''LIMIT'')) pm)"
proof -
  have l: "''LIMIT'' \<in> set special_keys" by (simp add: special_keys_def)
  have w: "where_limit (VObj kvs) = '' LIMIT '' @ int_str count @ '' OFFSET '' @ int_str offset"
    using assms(1) by (simp add: where_limit_def get_prop_def truthy_def typeof_def)
  show ?thesis
    unfolding whereClause_obj conditions_delete [OF l] where_group_delete_limit
      where_order_delete [of "''LIMIT''", simplified] where_limit_deleted w
    by (simp split: sum.splits prod.splits)
qed

subsection \<open>Join keys\<close>

lemma first_some_mem: "first_some f xs = Some r \<Longrightarrow> \<exists>x\<in>set xs. f x = Some r"
  by (induction xs) (auto split: option.splits)

lemma join_at_tag:
  "join_at s = Some (Some tag, tbl, alias) \<Longrightarrow> tag \<in> set [''<>'', ''<'', ''><'', ''>'']"
  unfolding join_at_def
  by (auto split: list.splits if_splits option.splits prod.splits dest!: first_some_mem)

lemma search_join_at_tag:
  "search join_at s = Some (Some tag, tbl, alias) \<Longrightarrow> tag \<in> set [''<>'', ''<'', ''><'', ''>'']"
proof (induction s)
  case Nil
  then show ?case using join_at_tag [of "[]"] by simp
next
  case (Cons c cs)
  then show ?case
    using join_at_tag [of "c # cs" tag tbl "alias"] by (auto split: option.splits)
qed

lemma word_not_bracket: "is_word c \<Longrightarrow> c \<noteq> CHR ''[''"
  by (auto simp: is_word_def)

lemma join_at_plain:
  assumes "is_word c"
  shows "search join_at (c # cs) =
     Some (None, c # takeWhile is_word cs,
           alias_at (case dropWhile is_word cs of [] \<Rightarrow> []
                     | d # r' \<Rightarrow> if is_space d then r' else dropWhile is_word cs))"
  using assms word_not_bracket [OF assms]
  by (simp add: join_at_def table_at_def Let_def)

subsection \<open>Column specifications\<close>

lemma columnPush_array:
  "columnPush this (VArr xs) pm root isJoin =
     (case columnPush_loop this (index_from 0 xs) (length (index_from 0 xs)) pm root isJoin of
        Inl e \<Rightarrow> Inl e
      | Inr (stack, kvs', pm') \<Rightarrow> Inr (join '','' stack, VArr (map snd kvs'), pm'))"
  by (simp add: columnPush.simps columnPush_entries_def entries_def split: sum.splits)

lemma columnPush_object:
  "columnPush this (VObj kvs) pm root isJoin =
     (case columnPush_loop this kvs (length kvs) pm root isJoin of
        Inl e \<Rightarrow> Inl e
      | Inr (stack, kvs', pm') \<Rightarrow> Inr (join '','' stack, VObj kvs', pm'))"
  by (simp add: columnPush.simps columnPush_entries_def entries_def split: sum.splits)

lemma columnPush_string_star:
  "CHR ''*'' \<in> set s \<Longrightarrow> s \<noteq> ''*'' \<Longrightarrow>
     columnPush this (VStr s) pm root True = Inl CannotUseTableStar"
  by (simp add: columnPush.simps columnPush_entries_def columnPush_entry.simps isArray_def
      isRaw_def is_int_key_def is_digit_def columnPush_string_def)

lemma wildcard_loop_fails:
  "wildcard_selected kvs \<Longrightarrow> \<exists>e. columnPush_loop this kvs n pm root True = Inl e"
proof (induction kvs arbitrary: n pm root rule: wildcard_selected.induct)
  case (here key s rest)
  then have "columnPush_entry this key (VStr s) n pm root True = Inl CannotUseTableStar"
    by (simp add: columnPush_entry.simps isArray_def isRaw_def columnPush_string_def)
  then show ?case by simp
next
  case (nested xs key rest)
  obtain e where "columnPush_loop this (index_from 0 xs) (length (index_from 0 xs)) pm False True = Inl e"
    using nested.IH by blast
  then have "columnPush this (VArr xs) pm False True = Inl e"
    by (simp add: columnPush_array)
  then have "\<exists>e. columnPush_entry this key (VArr xs) n pm root True = Inl e"
    by (simp add: columnPush_entry.simps isArray_def split: sum.splits)
  then show ?case by auto
next
  case (later rest entry)
  obtain key v where e: "entry = (key, v)" by (cases entry)
  show ?case
  proof (cases "columnPush_entry this key v n pm root True")
    case (Inl a)
    then show ?thesis unfolding e by simp
  next
    case (Inr r)
    obtain pushed v' pm' where r: "r = (pushed, v', pm')" by (cases r)
    obtain e' where "columnPush_loop this rest n pm' root True = Inl e'"
      using later.IH by blast
    then show ?thesis
      unfolding e using Inr r by simp
  qed
qed

subsection \<open>The result mapper\<close>

lemma field_entry:
  "is_int_key key \<or> isRaw v \<Longrightarrow>
     dataMap_loop pf data ((key, v) # rest) columnMap stack =
       (case dataMap_field pf data columnMap key v stack of
          Inl e \<Rightarrow> Inl e
        | Inr stack' \<Rightarrow> dataMap_loop pf data rest columnMap stack')"
  by simp

lemma row_set_plain:
  "k \<noteq> ''length'' \<Longrightarrow> k \<noteq> ''__proto__'' \<Longrightarrow>
     row_set pf (len, props) k v =
       Inr (if is_index k then max len (nat (str_num k) + 1) else len, prop_set props k v)"
  by (simp add: row_set_def)

text \<open>Away from the two keys that an array treats in its own way, a field of type
  \<^verbatim>\<open>Object\<close> or \<^verbatim>\<open>JSON\<close> given by a column string stores what \<^verbatim>\<open>JSON.parse\<close> returns, or
  the source value where it throws, and a \<^verbatim>\<open>null\<close> is stored as it is.\<close>

lemma json_field_stored:
  assumes "map_of columnMap (js_string v) = Some (columnKey, type)"
    and "\<not> isRaw v" and "type = ''Object'' \<or> type = ''JSON''"
    and "columnKey \<noteq> ''length''" and "columnKey \<noteq> ''__proto__''"
    and "obj_get data columnKey \<noteq> VNull"
  shows "dataMap_field pf data columnMap key v (len, props) =
     Inr (if is_index columnKey then max len (nat (str_num columnKey) + 1) else len,
          prop_set props columnKey
            (Field (case JSON_parse pf (obj_get data columnKey) of
                      Some parsed \<Rightarrow> parsed
                    | None \<Rightarrow> obj_get data columnKey)))"
  using assms
  by (auto simp: dataMap_field_def row_set_plain split: option.splits)

lemma null_field_stored:
  assumes "map_of columnMap (if isRaw v then key else js_string v) = Some (columnKey, type)"
    and "\<not> (isRaw v \<and> (type = ''Object'' \<or> type = ''JSON''))"
    and "columnKey \<noteq> ''length''" and "columnKey \<noteq> ''__proto__''"
    and "obj_get data columnKey = VNull"
  shows "dataMap_field pf data columnMap key v (len, props) =
     Inr (if is_index columnKey then max len (nat (str_num columnKey) + 1) else len,
          prop_set props columnKey (Field VNull))"
  using assms
  by (auto simp: dataMap_field_def row_set_plain)

subsection \<open>The arguments of get\<close>













subsection \<open>Evaluating the examples\<close>

















section \<open>Identifier quoting\<close>

lemma dot_not_word: "\<not> is_word CHR ''.''"
  by (simp add: is_word_def)

lemma table_re_iff: "table_re s = spec_identifier s"
  by (simp add: table_re_def spec_identifier_def list_all_iff)

lemma column_re_plain: "spec_identifier a \<Longrightarrow> column_re a"
  by (simp add: column_re_def spec_identifier_def takeWhile_eq_all_conv [THEN iffD2]
      dropWhile_eq_Nil_conv [THEN iffD2])

lemma column_re_dotted:
  assumes "spec_identifier a" "spec_identifier b"
  shows "column_re (a @ ''.'' @ b)"
proof -
  have "takeWhile is_word (a @ ''.'' @ b) = a" "dropWhile is_word (a @ ''.'' @ b) = ''.'' @ b"
    using assms(1) dot_not_word by (simp_all add: spec_identifier_def takeWhile_append2 dropWhile_append2)
  then show ?thesis
    using assms by (simp add: column_re_def spec_identifier_def list_all_iff)
qed

lemma column_re_cases:
  assumes "column_re s"
  shows "spec_identifier s \<or> (\<exists>a b. s = a @ ''.'' @ b \<and> spec_identifier a \<and> spec_identifier b)"
proof -
  let ?a = "takeWhile is_word s" and ?r = "dropWhile is_word s"
  have s: "s = ?a @ ?r" by simp
  have a: "\<forall>c\<in>set ?a. is_word c" by (auto dest: set_takeWhileD)
  show ?thesis
  proof (cases ?r)
    case Nil
    with assms s a show ?thesis
      by (simp add: column_re_def spec_identifier_def Let_def)
  next
    case (Cons d b)
    with assms have "d = CHR ''.''" "b \<noteq> []" "list_all is_word b" "?a \<noteq> []"
      unfolding column_re_def Let_def by simp_all
    then have "s = ?a @ ''.'' @ b \<and> spec_identifier ?a \<and> spec_identifier b"
      using s a Cons by (simp add: spec_identifier_def list_all_iff)
    then show ?thesis by blast
  qed
qed

lemma replace_first_dot:
  "CHR ''.'' \<notin> set a \<Longrightarrow> replace_first ''.'' r (a @ ''.'' @ b) = a @ r @ b"
  by (induction a) auto

lemma spec_identifier_no_dot: "spec_identifier a \<Longrightarrow> CHR ''.'' \<notin> set a"
  using dot_not_word by (auto simp: spec_identifier_def)

text \<open>
  Claim C5. \<^verbatim>\<open>tableQuote\<close> fails with the incorrect-table-name error unless the name is a
  non-empty string of word characters, and otherwise returns the prefix and the name
  between double quotes. \<^verbatim>\<open>columnQuote\<close> accepts such a name, which it quotes without the
  prefix, and two such names around one dot, which it quotes segment by segment with the
  prefix before the first; it fails on every other string. Both results depend on the
  instance through its prefix only.
\<close>

theorem identifier_quoting:
  "(spec_identifier name \<longrightarrow> tableQuote this name = Inr (dq @ prefix this @ name @ dq))
   \<and> (\<not> spec_identifier name \<longrightarrow> tableQuote this name = Inl (IncorrectTableName name))
   \<and> (spec_identifier a \<and> spec_identifier b \<longrightarrow>
        columnQuote this (a @ ''.'' @ b) = Inr (dq @ prefix this @ a @ dq @ ''.'' @ dq @ b @ dq))
   \<and> (spec_identifier a \<longrightarrow> columnQuote this a = Inr (dq @ a @ dq))
   \<and> (\<not> spec_identifier s \<and> (\<forall>a b. spec_identifier a \<and> spec_identifier b \<longrightarrow> s \<noteq> a @ ''.'' @ b) \<longrightarrow>
        columnQuote this s = Inl (IncorrectColumnName s))
   \<and> (prefix this' = prefix this \<longrightarrow>
        tableQuote this' name = tableQuote this name \<and> columnQuote this' s = columnQuote this s)"
proof (intro conjI impI)
  show "tableQuote this name = Inr (dq @ prefix this @ name @ dq)" if "spec_identifier name"
    using that by (simp add: tableQuote_def table_re_iff)
  show "tableQuote this name = Inl (IncorrectTableName name)" if "\<not> spec_identifier name"
    using that by (simp add: tableQuote_def table_re_iff)
  show "columnQuote this (a @ ''.'' @ b) = Inr (dq @ prefix this @ a @ dq @ ''.'' @ dq @ b @ dq)"
    if "spec_identifier a \<and> spec_identifier b"
    using that column_re_dotted [of a b] replace_first_dot [of a "dq @ ''.'' @ dq" b]
      spec_identifier_no_dot [of a]
    by (simp add: columnQuote_def)
  show "columnQuote this a = Inr (dq @ a @ dq)" if "spec_identifier a"
    using that column_re_plain [of a] spec_identifier_no_dot [of a]
    by (simp add: columnQuote_def)
  show "columnQuote this s = Inl (IncorrectColumnName s)"
    if "\<not> spec_identifier s \<and> (\<forall>a b. spec_identifier a \<and> spec_identifier b \<longrightarrow> s \<noteq> a @ ''.'' @ b)"
    using that column_re_cases [of s] by (auto simp: columnQuote_def)
  show "tableQuote this' name = tableQuote this name" if "prefix this' = prefix this"
    using that by (simp add: tableQuote_def)
  show "columnQuote this' s = columnQuote this s" if "prefix this' = prefix this"
    using that by (simp add: columnQuote_def)
qed

theorem identifier_quoting_witness:
  "tableQuote \<lparr>prefix = ''app_'', guid = 0, escape = js_string\<rparr> ''users'' = Inr (dq @ ''app_users'' @ dq)
   \<and> tableQuote \<lparr>prefix = ''app_'', guid = 0, escape = js_string\<rparr> ''us ers'' = Inl (IncorrectTableName ''us ers'')
   \<and> columnQuote \<lparr>prefix = ''app_'', guid = 0, escape = js_string\<rparr> ''users.name''
       = Inr (dq @ ''app_users'' @ dq @ ''.'' @ dq @ ''name'' @ dq)
   \<and> columnQuote \<lparr>prefix = ''app_'', guid = 0, escape = js_string\<rparr> ''name'' = Inr (dq @ ''name'' @ dq)
   \<and> columnQuote \<lparr>prefix = ''app_'', guid = 0, escape = js_string\<rparr> ''a.b.c'' = Inl (IncorrectColumnName ''a.b.c'')"
proof -
  let ?T = "\<lparr>prefix = ''app_'', guid = 0, escape = js_string\<rparr>"
  have w: "spec_identifier ''users''" "spec_identifier ''name''" "\<not> spec_identifier ''us ers''"
    "\<not> spec_identifier ''a.b.c''"
    by (simp_all add: spec_identifier_def is_word_def)
  have n: "\<forall>a b. spec_identifier a \<and> spec_identifier b \<longrightarrow> ''a.b.c'' \<noteq> a @ ''.'' @ b"
  proof -
    have "\<not> column_re ''a.b.c''"
      by (simp add: column_re_def is_word_def)
    then show ?thesis using column_re_dotted by metis
  qed
  show ?thesis
    using identifier_quoting [of "''users''" ?T "''users''" "''name''" "''a.b.c''" ?T]
      identifier_quoting [of "''us ers''" ?T "''name''" "''name''" "''a.b.c''" ?T] w n
    by simp
qed
section \<open>Wildcards under a join\<close>

text \<open>
  Claim C2, as the code has it. With \<^verbatim>\<open>isJoin\<close> set, a column specification in which a
  string with a \<^verbatim>\<open>*\<close> is selected (under a positional key, at any depth of nested lists)
  makes \<^verbatim>\<open>columnPush\<close> fail: it raises an error and returns no select list. A single
  string with a \<^verbatim>\<open>*\<close>, other than the string \<^verbatim>\<open>*\<close> itself, raises the wildcard error.
  The specification \<^verbatim>\<open>*\<close> is returned as it is, whatever \<^verbatim>\<open>isJoin\<close> is.
\<close>

theorem wildcard_under_join:
  "(wildcard_selected kvs \<longrightarrow> (\<exists>e. columnPush this (VObj kvs) pm root True = Inl e))
   \<and> (wildcard_selected (index_from 0 xs) \<longrightarrow> (\<exists>e. columnPush this (VArr xs) pm root True = Inl e))
   \<and> (CHR ''*'' \<in> set s \<and> s \<noteq> ''*'' \<longrightarrow>
        columnPush this (VStr s) pm root True = Inl CannotUseTableStar)
   \<and> (CHR ''*'' \<in> set s \<longrightarrow>
        columnPush this (VArr (VStr s # xs)) pm root True = Inl CannotUseTableStar)
   \<and> columnPush this (VStr ''*'') pm root isJoin = Inr (''*'', VStr ''*'', pm)"
proof (intro conjI impI)
  show "\<exists>e. columnPush this (VObj kvs) pm root True = Inl e" if "wildcard_selected kvs"
    using wildcard_loop_fails [OF that, of this "length kvs" pm root]
    by (auto simp: columnPush_object)
  show "\<exists>e. columnPush this (VArr xs) pm root True = Inl e" if "wildcard_selected (index_from 0 xs)"
    using wildcard_loop_fails [OF that, of this "length (index_from 0 xs)" pm root]
    by (auto simp: columnPush_array)
  show "columnPush this (VStr s) pm root True = Inl CannotUseTableStar"
    if "CHR ''*'' \<in> set s \<and> s \<noteq> ''*''"
    using that by (simp add: columnPush_string_star)
  show "columnPush this (VArr (VStr s # xs)) pm root True = Inl CannotUseTableStar"
    if "CHR ''*'' \<in> set s"
  proof -
    have "is_int_key (nat_str 0)"
      by (simp add: nat_str_0 is_int_key_def is_digit_def)
    then have "columnPush_entry this (nat_str 0) (VStr s) n pm root True = Inl CannotUseTableStar" for n
      using that
      by (simp add: columnPush_entry.simps isArray_def isRaw_def columnPush_string_def)
    then show ?thesis by (simp add: columnPush_array)
  qed
  show "columnPush this (VStr ''*'') pm root isJoin = Inr (''*'', VStr ''*'', pm)"
    by (simp add: columnPush.simps)
qed

theorem wildcard_under_join_witness:
  "(\<exists>e. columnPush db0 (VArr [VStr ''id'', VArr [VStr ''posts.*'']]) [] True True = Inl e)
   \<and> (\<exists>e. columnPush db0 (VObj [(''0'', VStr ''id''), (''1'', VStr ''users.*'')]) [] True True = Inl e)
   \<and> columnPush db0 (VStr ''users.*'') [] True True = Inl CannotUseTableStar
   \<and> columnPush db0 (VArr [VStr ''users.*'', VStr ''id'']) [] True True = Inl CannotUseTableStar"
proof -
  have i: "is_int_key (nat_str 0)" "is_int_key ''1''"
    by (simp_all add: nat_str_0 is_int_key_def is_digit_def)
  have "wildcard_selected (index_from 0 [VStr ''posts.*''])"
    using i by (auto intro: wildcard_selected.here)
  then have "wildcard_selected [(nat_str (Suc 0), VArr [VStr ''posts.*''])]"
    by (rule wildcard_selected.nested)
  then have "wildcard_selected [(nat_str 0, VStr ''id''), (nat_str (Suc 0), VArr [VStr ''posts.*''])]"
    by (rule wildcard_selected.later)
  then have a: "wildcard_selected (index_from 0 [VStr ''id'', VArr [VStr ''posts.*'']])"
    by simp
  have "wildcard_selected [(''1'', VStr ''users.*'')]"
    using i(2) by (rule wildcard_selected.here) simp
  then have b: "wildcard_selected [(''0'', VStr ''id''), (''1'', VStr ''users.*'')]"
    by (rule wildcard_selected.later)
  show ?thesis
    using wildcard_under_join [where kvs = "[(''0'', VStr ''id''), (''1'', VStr ''users.*'')]"
        and this = db0 and pm = "[]" and root = True
        and xs = "[VStr ''id'', VArr [VStr ''posts.*'']]" and s = "''users.*''"]
      wildcard_under_join [where this = db0 and pm = "[]" and root = True
        and xs = "[VStr ''id'']" and s = "''users.*''"] a b
    by simp
qed

theorem wildcard_alone_counterexample:
  "columnPush db0 (VStr ''*'') [] True True = Inr (''*'', VStr ''*'', [])"
  by (simp add: columnPush.simps)

section \<open>The range operators\<close>

text \<open>
  Claim C3, as the code has it. An entry whose key carries the range operator
  \<^verbatim>\<open><>\<close> or \<^verbatim>\<open>><\<close> and whose value is a list pushes the fragment
  \<^verbatim>\<open>(column BETWEEN :ka AND :kb)\<close>, with \<^verbatim>\<open>NOT\<close> after the column for \<^verbatim>\<open>><\<close>, and binds
  the first two elements of the list (\<^verbatim>\<open>undefined\<close> where the list is shorter) to the two
  names; an entry whose value is not a list pushes nothing, binds nothing and raises no
  error: the loop goes on with the next entry.
\<close>

theorem range_entry:
  assumes "search key_at key = Some (m1, Some operator)"
    and "operator = ''<>'' \<or> operator = ''><''"
    and "dataImplode_column this m1 = Inr column"
  shows "dataImplode_loop this ((key, VArr items) # rest) pm conjunctor =
           entry_then
             [''('' @ column @ (if operator = ''><'' then '' NOT'' else []) @ '' BETWEEN ''
                @ fst (mapKey this) @ ''a AND '' @ fst (mapKey this) @ ''b)'']
             (dataImplode_loop (snd (mapKey this)) rest
                (obj_set (obj_set pm (fst (mapKey this) @ ''a'') (arr_get items 0))
                   (fst (mapKey this) @ ''b'') (arr_get items 1))
                conjunctor)
         \<and> (\<not> isArray v \<longrightarrow>
              dataImplode_loop this ((key, v) # rest) pm conjunctor =
                dataImplode_loop (snd (mapKey this)) rest pm conjunctor)"
  by (simp add: operator_entry_is_item [OF assms(1)] range_item [OF assms])

theorem range_entry_witness:
  "dataImplode db0 (VObj [(''age[<>]'', VArr [VNum 18, VNum 65])]) [] '' AND'' =
     Inr (''('' @ dq @ ''age'' @ dq @ '' BETWEEN :medoo_0_parama AND :medoo_0_paramb)'',
          db0\<lparr>guid := 1\<rparr>,
          [('':medoo_0_parama'', VNum 18), ('':medoo_0_paramb'', VNum 65)])
   \<and> dataImplode db0 (VObj [(''age[><]'', VStr ''18-65'')]) [] '' AND'' =
     Inr ([], db0\<lparr>guid := 1\<rparr>, [])"
proof -
  have k: "search key_at ''age[<>]'' = Some (''age'', Some ''<>'')"
    "search key_at ''age[><]'' = Some (''age'', Some ''><'')"
    by (simp_all add: key_at_def is_keych_def is_word_def)
  have c: "dataImplode_column db0 ''age'' = Inr (dq @ ''age'' @ dq)"
    by (simp add: dataImplode_column_def columnQuote_def column_re_def is_word_def)
  have n: "nat_str 0 = ''0''"
    by (simp add: nat_str.simps digit_char_def)
  have g: "guid db0 = 0" by (simp add: db0_def)
  show ?thesis
    using range_entry [OF k(1) _ c, of "[VNum 18, VNum 65]" "[]" "[]" "'' AND''" VNull]
      range_entry [OF k(2) _ c, of "[]" "[]" "[]" "'' AND''" "VStr ''18-65''"]
    by (simp add: dataImplode.simps entries_def mapKey_def n g arr_get_def obj_set_def
        is_index_def is_digit_def isArray_def)
qed

theorem range_scalar_counterexample:
  "dataImplode db0 (VObj [(''age[<>]'', VNum 5)]) [] '' AND'' = Inr ([], db0\<lparr>guid := 1\<rparr>, [])"
proof -
  have k: "search key_at ''age[<>]'' = Some (''age'', Some ''<>'')"
    by (simp add: key_at_def is_keych_def is_word_def)
  have c: "dataImplode_column db0 ''age'' = Inr (dq @ ''age'' @ dq)"
    by (simp add: dataImplode_column_def columnQuote_def column_re_def is_word_def)
  have "dataImplode_item db0 ''age[<>]'' (VNum 5) [] = Inr ([], db0\<lparr>guid := 1\<rparr>, [])"
    using range_item(2) [OF k _ c, of "VNum 5" "[]"] by (simp add: mapKey_def db0_def isArray_def)
  then show ?thesis
    by (simp add: dataImplode.simps entries_def operator_entry_is_item [OF k])
qed

section \<open>JSON fields and null\<close>

text \<open>
  Claim C4 at the result key \<^verbatim>\<open>length\<close>. The row object is an array, so the assignment
  \<^verbatim>\<open>stack['length'] = ...\<close> sets the length of the array. For the column specification
  \<^verbatim>\<open>{0: 'length [JSON]'}\<close>, whose column map is \<^verbatim>\<open>{'length [JSON]': ['length', 'JSON']}\<close>:
  when the source value is \<^verbatim>\<open>null\<close>, the row object stays the empty array on every platform
  (no property holds the \<^verbatim>\<open>null\<close>); when the source value is the text \<^verbatim>\<open>{bad\<close>, which does
  not parse, the assignment of the \<^verbatim>\<open>catch\<close> block raises a RangeError.
\<close>

theorem length_field_not_stored:
  "dataMap pf [(''length'', VNull)] (VObj [(''0'', VStr ''length [JSON]'')])
     [(''length [JSON]'', (''length'', ''JSON''))] (0, []) = Inr (0, [])
   \<and> dataMap pf0 [(''length'', VStr ''{bad'')] (VObj [(''0'', VStr ''length [JSON]'')])
     [(''length [JSON]'', (''length'', ''JSON''))] (0, []) = Inl RangeError"
proof -
  have i: "is_int_key ''0''"
    by (simp add: is_int_key_def is_digit_def)
  have o: "columns \<noteq> VStr ''*'' \<and> \<not> isArray columns \<and> typeof columns = ''object'' \<and> columns \<noteq> VNull
      \<and> entries columns = Some [(''0'', VStr ''length [JSON]'')]"
    if "columns = VObj [(''0'', VStr ''length [JSON]'')]" for columns
    using that by (simp add: isArray_def typeof_def entries_def)
  have n: "dataMap_field pf [(''length'', VNull)] [(''length [JSON]'', (''length'', ''JSON''))]
      ''0'' (VStr ''length [JSON]'') (0, []) = Inr (0, [])"
    by (simp add: dataMap_field_def isRaw_def obj_get_def row_set_def array_length_def)
  have b: "dataMap_field pf0 [(''length'', VStr ''{bad'')] [(''length [JSON]'', (''length'', ''JSON''))]
      ''0'' (VStr ''length [JSON]'') (0, []) = Inl RangeError"
    by (simp add: dataMap_field_def isRaw_def obj_get_def row_set_def array_length_def pf0_def)
  show ?thesis
    using o [OF refl]
    by (simp add: dataMap.simps field_entry [OF disjI1 [OF i]] n b del: dataMap_loop.simps(2))
qed

section \<open>The negation operator\<close>

text \<open>
  Claim C6, as the code has it. An entry with the negation operator \<^verbatim>\<open>!\<close> pushes
  \<^verbatim>\<open>column IS NOT NULL\<close> for \<^verbatim>\<open>null\<close>; for a list it pushes \<^verbatim>\<open>column NOT IN (...)\<close> with
  one name per element, the names distinct and each bound to its element, the other
  parameters as they were; for a \<^verbatim>\<open>Raw\<close> it pushes \<^verbatim>\<open>column != \<close> and the spliced text;
  for any other scalar it pushes \<^verbatim>\<open>column != :param\<close> and binds the scalar, a boolean
  through \<^verbatim>\<open>typeMap\<close> as the string \<^verbatim>\<open>'1'\<close> or \<^verbatim>\<open>'0'\<close>.
\<close>

theorem negation_entry:
  assumes "search key_at key = Some (m1, Some ''!'')"
    and "dataImplode_column this m1 = Inr column"
  shows
    "dataImplode_loop this ((key, VNull) # rest) pm conjunctor =
       entry_then [column @ '' IS NOT NULL'']
         (dataImplode_loop (snd (mapKey this)) rest pm conjunctor)
     \<and> (let names = item_names (fst (mapKey this)) 0 (length items);
             pm' = snd (bind_items (fst (mapKey this)) 0 items pm)
         in dataImplode_loop this ((key, VArr items) # rest) pm conjunctor =
              entry_then [column @ '' NOT IN ('' @ join '', '' names @ '')'']
                (dataImplode_loop (snd (mapKey this)) rest pm' conjunctor)
            \<and> length names = length items \<and> distinct names
            \<and> (\<forall>i<length items. obj_get pm' (names ! i) = items ! i)
            \<and> fst ` set pm' = fst ` set pm \<union> set names
            \<and> (\<forall>k. k \<notin> set names \<longrightarrow> obj_get pm' k = obj_get pm k))
     \<and> (\<forall>raw pm'. buildRaw this (VRaw t m) pm = Inr (raw, pm') \<longrightarrow>
           dataImplode_loop this ((key, VRaw t m) # rest) pm conjunctor =
             entry_then [column @ '' != '' @ js_string raw]
               (dataImplode_loop (snd (mapKey this)) rest pm' conjunctor))
     \<and> (typeof v \<noteq> ''object'' \<longrightarrow>
           dataImplode_loop this ((key, v) # rest) pm conjunctor =
             entry_then [column @ '' != '' @ fst (mapKey this)]
               (dataImplode_loop (snd (mapKey this)) rest
                  (obj_set pm (fst (mapKey this))
                     (case v of VBool b \<Rightarrow> VStr (if b then ''1'' else ''0'') | _ \<Rightarrow> v))
                  conjunctor))"
proof (intro conjI)
  note e = operator_entry_is_item [OF assms(1)]
  note i = not_item [OF assms]
  show "dataImplode_loop this ((key, VNull) # rest) pm conjunctor =
       entry_then [column @ '' IS NOT NULL'']
         (dataImplode_loop (snd (mapKey this)) rest pm conjunctor)"
    by (simp add: e i typeof_def)
  show "let names = item_names (fst (mapKey this)) 0 (length items);
             pm' = snd (bind_items (fst (mapKey this)) 0 items pm)
         in dataImplode_loop this ((key, VArr items) # rest) pm conjunctor =
              entry_then [column @ '' NOT IN ('' @ join '', '' names @ '')'']
                (dataImplode_loop (snd (mapKey this)) rest pm' conjunctor)
            \<and> length names = length items \<and> distinct names
            \<and> (\<forall>i<length items. obj_get pm' (names ! i) = items ! i)
            \<and> fst ` set pm' = fst ` set pm \<union> set names
            \<and> (\<forall>k. k \<notin> set names \<longrightarrow> obj_get pm' k = obj_get pm k)"
    unfolding Let_def
  proof (intro conjI allI impI)
    show "length (item_names (fst (mapKey this)) 0 (length items)) = length items"
      by (simp add: item_names_def)
  qed (simp_all add: e i typeof_def item_names_distinct bind_items_bound bind_items_keys
        bind_items_other)
  show "\<forall>raw pm'. buildRaw this (VRaw t m) pm = Inr (raw, pm') \<longrightarrow>
           dataImplode_loop this ((key, VRaw t m) # rest) pm conjunctor =
             entry_then [column @ '' != '' @ js_string raw]
               (dataImplode_loop (snd (mapKey this)) rest pm' conjunctor)"
    by (simp add: e i typeof_def)
  show "typeof v \<noteq> ''object'' \<longrightarrow>
           dataImplode_loop this ((key, v) # rest) pm conjunctor =
             entry_then [column @ '' != '' @ fst (mapKey this)]
               (dataImplode_loop (snd (mapKey this)) rest
                  (obj_set pm (fst (mapKey this))
                     (case v of VBool b \<Rightarrow> VStr (if b then ''1'' else ''0'') | _ \<Rightarrow> v))
                  conjunctor)"
    by (simp add: e i typeMap_scalar)
qed


theorem negation_entry_witness:
  "dataImplode db0 (VObj [(''role[!]'', VNull)]) [] '' AND'' =
     Inr (dq @ ''role'' @ dq @ '' IS NOT NULL'', db0\<lparr>guid := 1\<rparr>, [])
   \<and> dataImplode db0 (VObj [(''role[!]'', VArr [VStr ''admin'', VStr ''banned''])]) [] '' AND'' =
     Inr (dq @ ''role'' @ dq @ '' NOT IN (:medoo_0_param0_i, :medoo_0_param1_i)'',
          db0\<lparr>guid := 1\<rparr>,
          [('':medoo_0_param0_i'', VStr ''admin''), ('':medoo_0_param1_i'', VStr ''banned'')])
   \<and> dataImplode db0 (VObj [(''role[!]'', VRaw ''NOW()'' [])]) [] '' AND'' =
     Inr (dq @ ''role'' @ dq @ '' != NOW()'', db0\<lparr>guid := 1\<rparr>, [])
   \<and> dataImplode db0 (VObj [(''role[!]'', VStr ''guest'')]) [] '' AND'' =
     Inr (dq @ ''role'' @ dq @ '' != :medoo_0_param'', db0\<lparr>guid := 1\<rparr>,
          [('':medoo_0_param'', VStr ''guest'')])"
proof -
  have k: "search key_at ''role[!]'' = Some (''role'', Some ''!'')"
    by (simp add: key_at_def is_keych_def is_word_def)
  have c: "dataImplode_column db0 ''role'' = Inr (dq @ ''role'' @ dq)"
    by (simp add: dataImplode_column_def columnQuote_def column_re_def is_word_def)
  have r: "buildRaw db0 (VRaw ''NOW()'' []) [] = Inr (VStr ''NOW()'', [])"
    by (simp add: buildRaw_def raw_at_def raw_rest_at_def strip_nocase_def eq_nocase_def
        upper_char_def placeholder_at_def)
  have t: "typeof (VStr ''guest'') \<noteq> ''object''"
    by (simp add: typeof_def)
  have b: "bind_items '':medoo_0_param'' 0 [VStr ''admin'', VStr ''banned''] [] =
      (['':medoo_0_param0_i'', '':medoo_0_param1_i''],
       [('':medoo_0_param0_i'', VStr ''admin''), ('':medoo_0_param1_i'', VStr ''banned'')])"
    by (simp add: nat_str_0 nat_str_1 obj_set_def is_index_def is_digit_def Let_def)
  have n: "item_names '':medoo_0_param'' 0 (length [VStr ''admin'', VStr ''banned'']) =
      ['':medoo_0_param0_i'', '':medoo_0_param1_i'']"
    by (simp add: item_names_Suc nat_str_0 nat_str_1)
  note w = negation_entry [OF k c, of "[]" "[]" "'' AND''" "[VStr ''admin'', VStr ''banned'']"
        "''NOW()''" "[]" "VStr ''guest''", unfolded mapKey_db0 b n Let_def]
  show ?thesis
    using w r t
    by (simp add: dataImplode.simps entries_def obj_set_def is_index_def is_digit_def)
qed

theorem negation_boolean_counterexample:
  "dataImplode db0 (VObj [(''active[!]'', VBool True)]) [] '' AND'' =
     Inr (dq @ ''active'' @ dq @ '' != :medoo_0_param'', db0\<lparr>guid := 1\<rparr>,
          [('':medoo_0_param'', VStr ''1'')])"
proof -
  have k: "search key_at ''active[!]'' = Some (''active'', Some ''!'')"
    by (simp add: key_at_def is_keych_def is_word_def)
  have c: "dataImplode_column db0 ''active'' = Inr (dq @ ''active'' @ dq)"
    by (simp add: dataImplode_column_def columnQuote_def column_re_def is_word_def)
  show ?thesis
    by (simp add: dataImplode.simps entries_def operator_entry_is_item [OF k] not_item [OF k c]
        typeof_def typeMap_def truthy_def mapKey_db0 obj_set_def is_index_def is_digit_def)
qed

section \<open>Join keys\<close>

text \<open>
  Claim C7, as the code has it. The table of join keywords maps \<^verbatim>\<open>>\<close> to LEFT, \<^verbatim>\<open><\<close> to RIGHT,
  \<^verbatim>\<open><>\<close> to FULL and \<^verbatim>\<open>><\<close> to INNER; an entry whose key is matched with a direction tag has one of these four
  tags, and the clause it contributes starts with the keyword of its tag and \<^verbatim>\<open>JOIN\<close>; an
  entry whose key is matched without a direction tag (in particular every key that starts
  with its table name) is passed over: the loop returns what it returns for the remaining
  entries.
\<close>

theorem join_direction_and_skip:
  "joinArray ''>'' = VStr ''LEFT'' \<and> joinArray ''<'' = VStr ''RIGHT''
   \<and> joinArray ''<>'' = VStr ''FULL'' \<and> joinArray ''><'' = VStr ''INNER''
   \<and> (search join_at subTable = Some (Some tag, tbl, alias) \<longrightarrow>
         tag \<in> {''>'', ''<'', ''<>'', ''><''}
         \<and> (\<forall>clauses. buildJoin_loop this table ((subTable, relation) # rest) = Inr clauses \<longrightarrow>
               (\<exists>tail tableJoin.
                  clauses = (js_string (joinArray tag) @ '' JOIN '' @ tail) # tableJoin
                  \<and> buildJoin_loop this table rest = Inr tableJoin)))
   \<and> (search join_at subTable = Some (None, tbl, alias) \<longrightarrow>
         buildJoin_loop this table ((subTable, relation) # rest) = buildJoin_loop this table rest)
   \<and> (subTable \<noteq> [] \<and> is_word (hd subTable) \<longrightarrow>
         buildJoin_loop this table ((subTable, relation) # rest) = buildJoin_loop this table rest)"
proof (intro conjI impI allI)
  show "joinArray ''>'' = VStr ''LEFT''" "joinArray ''<'' = VStr ''RIGHT''"
    "joinArray ''<>'' = VStr ''FULL''" "joinArray ''><'' = VStr ''INNER''"
    by (simp_all add: joinArray_def obj_get_def)
  show "tag \<in> {''>'', ''<'', ''<>'', ''><''}"
    if "search join_at subTable = Some (Some tag, tbl, alias)"
    using search_join_at_tag [OF that] by auto
  show "\<exists>tail tableJoin.
          clauses = (js_string (joinArray tag) @ '' JOIN '' @ tail) # tableJoin
          \<and> buildJoin_loop this table rest = Inr tableJoin"
    if "search join_at subTable = Some (Some tag, tbl, alias)"
      and "buildJoin_loop this table ((subTable, relation) # rest) = Inr clauses"
    for clauses
    using that by (auto split: sum.splits option.splits)
  show "buildJoin_loop this table ((subTable, relation) # rest) = buildJoin_loop this table rest"
    if "search join_at subTable = Some (None, tbl, alias)"
    using that by simp
  show "buildJoin_loop this table ((subTable, relation) # rest) = buildJoin_loop this table rest"
    if "subTable \<noteq> [] \<and> is_word (hd subTable)"
  proof -
    from that obtain c cs where s: "subTable = c # cs" and w: "is_word c"
      by (cases subTable) auto
    show ?thesis
      unfolding s by (simp add: join_at_plain [OF w] del: search.simps)
  qed
qed

theorem join_direction_and_skip_witness:
  "buildJoin db0 ''users'' (VObj [(''[>]posts'', VStr ''user_id''), (''comments'', VStr ''id'')]) =
     Inr (''LEFT JOIN '' @ dq @ ''posts'' @ dq @ '' USING ('' @ dq @ ''user_id'' @ dq @ '')'')"
proof -
  have k: "search join_at ''[>]posts'' = Some (Some ''>'', ''posts'', None)"
    by (simp add: join_at_def table_at_def alias_at_def is_word_def)
  have p: "search join_at ''comments'' = Some (None, ''comments'', None)"
    by (simp add: join_at_def table_at_def alias_at_def is_word_def)
  have r: "buildJoin_loop db0 ''users'' [(''comments'', VStr ''id'')] = Inr []"
    using join_direction_and_skip [of "''comments''" "''>''" "''comments''" None db0 "''users''" "VStr ''id''" "[]"] p
    by simp
  have t: "tableQuote db0 ''posts'' = Inr (dq @ ''posts'' @ dq)"
    by (simp add: tableQuote_def table_re_def is_word_def db0_def)
  have "buildJoin_loop db0 ''users'' [(''[>]posts'', VStr ''user_id''), (''comments'', VStr ''id'')] =
      Inr [''LEFT JOIN '' @ dq @ ''posts'' @ dq @ '' USING ('' @ dq @ ''user_id'' @ dq @ '')'']"
    by (simp add: k p r t join_relation_def joinArray_def obj_get_def del: search.simps)
  then show ?thesis
    using join_direction_and_skip [of "''[>]posts''" "''>''" "''posts''" None db0 "''users''"
        "VStr ''user_id''" "[(''comments'', VStr ''id'')]"] k
    by (simp add: buildJoin_def entries_def)
qed

theorem join_key_without_table_counterexample:
  "buildJoin db0 ''users'' (VObj [(''[>]posts'', VStr ''user_id''), (''#'', VStr ''id'')]) =
     Inl TypeError"
proof -
  have k: "search join_at ''[>]posts'' = Some (Some ''>'', ''posts'', None)"
    by (simp add: join_at_def table_at_def alias_at_def is_word_def)
  have p: "search join_at ''#'' = None"
    by (simp add: join_at_def table_at_def is_word_def)
  have t: "tableQuote db0 ''posts'' = Inr (dq @ ''posts'' @ dq)"
    by (simp add: tableQuote_def table_re_def is_word_def db0_def)
  show ?thesis
    by (simp add: buildJoin_def entries_def k p t join_relation_def del: search.simps)
qed

section \<open>LIMIT\<close>

text \<open>
  Claim C8 at \<open>n = 0\<close>. The guard \<^verbatim>\<open>if (where.LIMIT)\<close> tests the value, not the presence
  of the key: the specification \<^verbatim>\<open>{LIMIT: 0}\<close> assembles to the empty clause, not to
  \<^verbatim>\<open>LIMIT 0\<close>.
\<close>

theorem limit_zero_dropped:
  "whereClause db0 (VObj [(''LIMIT'', VNum 0)]) [] = Inr ([], db0, [])"
  by (simp add: whereClause_obj special_keys_def where_group_def where_order_def
      where_limit_def get_prop_def obj_get_def truthy_def)

section \<open>HAVING without GROUP\<close>

text \<open>
  Claim C9. A \<^verbatim>\<open>HAVING\<close> entry is read inside the block \<^verbatim>\<open>if (where.GROUP)\<close> only: for a
  specification without a \<^verbatim>\<open>GROUP\<close> key, and also for one whose \<^verbatim>\<open>GROUP\<close> is falsy,
  \<^verbatim>\<open>whereClause\<close> returns what it returns for the same specification without its
  \<^verbatim>\<open>HAVING\<close> entry: the same text, the same parameters, the same counter, the same error.
\<close>

theorem having_without_group:
  "(''GROUP'' \<notin> fst ` set kvs \<longrightarrow>
      whereClause this (VObj kvs) pm = whereClause this (VObj (obj_delete kvs ''HAVING'')) pm)
   \<and> (\<not> truthy (obj_get kvs ''GROUP'') \<longrightarrow>
      whereClause this (VObj kvs) pm = whereClause this (VObj (obj_delete kvs ''HAVING'')) pm)"
proof -
  have h: "''HAVING'' \<in> set special_keys" by (simp add: special_keys_def)
  have g: "whereClause this (VObj kvs) pm = whereClause this (VObj (obj_delete kvs ''HAVING'')) pm"
    if "\<not> truthy (obj_get kvs ''GROUP'')"
    unfolding whereClause_obj
    by (simp only: conditions_delete [OF h] where_group_delete_having [OF that]
        where_order_delete [of "''HAVING''", simplified]
        where_limit_delete [of "''HAVING''", simplified])
  have "\<not> truthy (obj_get kvs ''GROUP'')" if "''GROUP'' \<notin> fst ` set kvs"
    using that by (simp add: obj_get_absent truthy_def)
  with g show ?thesis by blast
qed

theorem having_without_group_witness:
  "whereClause db0 (VObj [(''HAVING'', VObj [(''COUNT(*)[>]'', VNum 5)]), (''LIMIT'', VNum 10)]) [] =
     Inr ('' LIMIT 10'', db0, [])
   \<and> whereClause db0 (VObj [(''GROUP'', VStr []), (''HAVING'', VRaw ''COUNT(*) > 5'' [])]) [] =
     Inr ([], db0, [])"
proof -
  have a: "''GROUP'' \<notin> fst ` set [(''HAVING'', VObj [(''COUNT(*)[>]'', VNum 5)]), (''LIMIT'', VNum 10)]"
    by simp
  have b: "\<not> truthy (obj_get [(''GROUP'', VStr []), (''HAVING'', VRaw ''COUNT(*) > 5'' [])] ''GROUP'')"
    by (simp add: obj_get_def truthy_def)
  have n: "int_str 10 = ''10''"
    by (simp add: int_str_def nat_str.simps [of 10] nat_str_0 nat_str_1 digit_char_def)
  show ?thesis
    using having_without_group [of "[(''HAVING'', VObj [(''COUNT(*)[>]'', VNum 5)]), (''LIMIT'', VNum 10)]" db0 "[]"]
      having_without_group [of "[(''GROUP'', VStr []), (''HAVING'', VRaw ''COUNT(*) > 5'' [])]" db0 "[]"]
      a b
    by (simp add: obj_delete_def whereClause_obj special_keys_def where_group_def where_order_def
        where_limit_def get_prop_def obj_get_def truthy_def typeof_def n)
qed

section \<open>The arguments of get\<close>




end
